theory Spec2Isabelle
  imports Complex_Main
begin

section \<open>Linear algebra and tensors\<close>

text \<open>
  The solver of \<^verbatim>\<open>NavierStokes3D.cpp\<close> works on \<^verbatim>\<open>double\<close>. Here a
  \<^verbatim>\<open>double\<close> is a \<^typ>\<open>real\<close>: rounding, overflow and NaN are not represented, so
  every equation below is an equation of exact arithmetic. A division whose divisor can
  be zero is made explicit where a property depends on it.

  A global vector is a function from the DoF index to its entry and a global matrix a
  function of the row and the column. A rank-1 tensor of dimension \<open>dim = 3\<close> is a
  function of the component, a rank-2 tensor a function of two components.
\<close>

type_synonym vector = "nat \<Rightarrow> real"
type_synonym matrix = "nat \<Rightarrow> nat \<Rightarrow> real"
type_synonym tensor1 = "nat \<Rightarrow> real"
type_synonym tensor2 = "nat \<Rightarrow> nat \<Rightarrow> real"

definition dim :: nat where
  "dim = 3"

text \<open>\<^verbatim>\<open>scalar_product\<close> of two rank-1 tensors (also \<^verbatim>\<open>operator*\<close> between them).\<close>

definition scalar_product :: "tensor1 \<Rightarrow> tensor1 \<Rightarrow> real" where
  "scalar_product u v = u 0 * v 0 + u 1 * v 1 + u 2 * v 2"

text \<open>\<^verbatim>\<open>scalar_product\<close> of two rank-2 tensors: the double contraction.\<close>

definition scalar_product2 :: "tensor2 \<Rightarrow> tensor2 \<Rightarrow> real" where
  "scalar_product2 a b =
     scalar_product (a 0) (b 0) + scalar_product (a 1) (b 1) + scalar_product (a 2) (b 2)"

text \<open>\<^verbatim>\<open>Tensor<2,dim> * Tensor<1,dim>\<close>: contraction of the last index of the gradient.\<close>

definition tensor2_times_tensor1 :: "tensor2 \<Rightarrow> tensor1 \<Rightarrow> tensor1" where
  "tensor2_times_tensor1 g u = (\<lambda>d. scalar_product (g d) u)"

text \<open>\<^verbatim>\<open>Tensor<1,dim> * Tensor<2,dim>\<close>: contraction of the first index of the gradient.\<close>

definition tensor1_times_tensor2 :: "tensor1 \<Rightarrow> tensor2 \<Rightarrow> tensor1" where
  "tensor1_times_tensor2 n g = (\<lambda>e. n 0 * g 0 e + n 1 * g 1 e + n 2 * g 2 e)"

definition norm_square :: "tensor1 \<Rightarrow> real" where
  "norm_square t = scalar_product t t"

text \<open>
  A counted loop \<^verbatim>\<open>for (k = 0; k < n; ++k) acc += f(k)\<close> that starts from \<open>0\<close>.
\<close>

primrec accumulate :: "nat \<Rightarrow> (nat \<Rightarrow> real) \<Rightarrow> real" where
  "accumulate 0 f = 0"
| "accumulate (Suc n) f = accumulate n f + f n"

text \<open>\<^verbatim>\<open>B.add(a, A)\<close> on matrices: \<open>B += a * A\<close>.\<close>

definition matrix_add :: "real \<Rightarrow> matrix \<Rightarrow> matrix \<Rightarrow> matrix" where
  "matrix_add a A B = (\<lambda>i j. B i j + a * A i j)"

definition zero_matrix :: matrix where
  "zero_matrix = (\<lambda>i j. 0)"

definition zero_vector :: vector where
  "zero_vector = (\<lambda>i. 0)"

section \<open>Finite-element data of a cell\<close>

text \<open>
  What \<^verbatim>\<open>FEValues\<close> and \<^verbatim>\<open>FEFaceValues\<close> hand to the assembly loops, per cell:
  for the local shape function \<open>i\<close> and the quadrature point \<open>q\<close>,
  \<^verbatim>\<open>fe_values[velocity].value(i, q)\<close>, \<^verbatim>\<open>.gradient(i, q)\<close>,
  \<^verbatim>\<open>.divergence(i, q)\<close>, \<^verbatim>\<open>fe_values[pressure].value(i, q)\<close> and
  \<^verbatim>\<open>fe_values.JxW(q)\<close>, and the global indices of \<^verbatim>\<open>cell->get_dof_indices\<close>.
\<close>

record fe_face =
  face_at_boundary :: bool
  boundary_id :: nat
  normal_vector :: "nat \<Rightarrow> tensor1"
  face_JxW :: "nat \<Rightarrow> real"
  face_velocity_gradient :: "nat \<Rightarrow> nat \<Rightarrow> tensor2"
  face_pressure_value :: "nat \<Rightarrow> nat \<Rightarrow> real"

record fe_cell =
  is_locally_owned :: bool
  at_boundary :: bool
  dof_indices :: "nat \<Rightarrow> nat"
  velocity_value :: "nat \<Rightarrow> nat \<Rightarrow> tensor1"
  velocity_gradient :: "nat \<Rightarrow> nat \<Rightarrow> tensor2"
  velocity_divergence :: "nat \<Rightarrow> nat \<Rightarrow> real"
  pressure_value :: "nat \<Rightarrow> nat \<Rightarrow> real"
  JxW :: "nat \<Rightarrow> real"
  faces :: "fe_face list"

text \<open>
  \<^verbatim>\<open>get_function_values\<close>, \<^verbatim>\<open>get_function_gradients\<close> and
  \<^verbatim>\<open>get_function_divergences\<close> of the velocity view: the finite-element function
  of a global vector at the quadrature points of the cell, the sum over the local shape
  functions of the DoF value times the shape function.
\<close>

definition get_function_values :: "nat \<Rightarrow> fe_cell \<Rightarrow> vector \<Rightarrow> nat \<Rightarrow> tensor1" where
  "get_function_values dofs_per_cell c v q =
     (\<lambda>d. accumulate dofs_per_cell (\<lambda>i. v (dof_indices c i) * velocity_value c i q d))"

definition get_function_gradients :: "nat \<Rightarrow> fe_cell \<Rightarrow> vector \<Rightarrow> nat \<Rightarrow> tensor2" where
  "get_function_gradients dofs_per_cell c v q =
     (\<lambda>d e. accumulate dofs_per_cell (\<lambda>i. v (dof_indices c i) * velocity_gradient c i q d e))"

definition get_function_divergences :: "nat \<Rightarrow> fe_cell \<Rightarrow> vector \<Rightarrow> nat \<Rightarrow> real" where
  "get_function_divergences dofs_per_cell c v q =
     accumulate dofs_per_cell (\<lambda>i. v (dof_indices c i) * velocity_divergence c i q)"

section \<open>Problem data and solver state\<close>

datatype solver_exception =
  NoConvergence nat real
| InvalidPreconditionerType
| ExcPointNotAvailableHere
| DivisionByZero

datatype event =
  StepHeader nat real
| AssemblingTheSystem
| ReinitializeMassMatrixForBDF2
| ResultGMRESIterations nat
| PressureDifference real
| DragLift real real
| Coeff real real
| OutputWritten nat
| DragCoefficientMax real
| LiftCoefficientMin real

record boundary_dof =
  bd_dof :: nat
  bd_boundary_id :: nat
  bd_component :: nat
  bd_support_point :: "nat \<Rightarrow> real"

datatype preconditioner =
  PreconditionYosida matrix matrix matrix matrix
| PreconditionSIMPLE matrix matrix matrix
| PreconditionaYosida matrix matrix matrix matrix
| PreconditionaSIMPLE matrix matrix matrix

record ns_state =
  system_matrix :: matrix
  mass_matrix :: matrix
  convection_matrix :: matrix
  stiffness_matrix :: matrix
  pressure_mass :: matrix
  system_rhs :: vector
  solution_owned :: vector
  solution :: vector
  previous_solution :: vector
  pcout :: "event list"

text \<open>
  The members the constructor fixes and the collaborators of the run. \<open>cells\<close> is the
  sequence of \<^verbatim>\<open>dof_handler.active_cell_iterators()\<close>; \<open>boundary_dofs\<close> the DoFs on
  boundary faces with the region, the vector component and the support point of each;
  \<open>krylov\<close> the numerical iteration of the Krylov method, giving the iterate and the
  residual norm after \<open>k\<close> iterations; \<open>point_value\<close> the evaluation of the solution
  at a point on the process of a given rank, which fails where the point lies outside
  the partition of that rank.
\<close>

record ns_config =
  deltat :: real
  final_time :: real
  nu :: real
  rho :: real
  n_u :: nat
  n_p :: nat
  dofs_per_cell :: nat
  n_q :: nat
  n_q_face :: nat
  cells :: "fe_cell list"
  boundary_dofs :: "boundary_dof list"
  inlet_velocity :: "real \<Rightarrow> (nat \<Rightarrow> real) \<Rightarrow> nat \<Rightarrow> real"
  getMeanVelocity :: "real \<Rightarrow> real"
  u_0 :: vector
  krylov :: "matrix \<Rightarrow> vector \<Rightarrow> vector \<Rightarrow> preconditioner \<Rightarrow> nat \<Rightarrow> vector \<times> real"
  mpi_size :: nat
  point_value :: "nat \<Rightarrow> vector \<Rightarrow> (nat \<Rightarrow> real) \<Rightarrow> solver_exception + (nat \<Rightarrow> real)"

section \<open>Local contributions of a cell\<close>

text \<open>
  The body of the loops over \<open>q\<close>, \<open>i\<close> and \<open>j\<close> of \<^verbatim>\<open>NavierStokes::assemble\<close>:
  every \<^verbatim>\<open>cell_*(i, j) += ...\<close> is the term of one quadrature point, accumulated
  over \<open>q\<close> from the zero the cell starts with.
\<close>

definition viscosity_term :: "ns_config \<Rightarrow> fe_cell \<Rightarrow> nat \<Rightarrow> nat \<Rightarrow> nat \<Rightarrow> real" where
  "viscosity_term cfg c i j q =
     nu cfg * scalar_product2 (velocity_gradient c i q) (velocity_gradient c j q) * JxW c q"

definition time_derivative_term :: "ns_config \<Rightarrow> fe_cell \<Rightarrow> nat \<Rightarrow> nat \<Rightarrow> nat \<Rightarrow> real" where
  "time_derivative_term cfg c i j q =
     scalar_product (velocity_value c i q) (velocity_value c j q) / deltat cfg * JxW c q"

definition convective_term :: "fe_cell \<Rightarrow> tensor1 \<Rightarrow> nat \<Rightarrow> nat \<Rightarrow> nat \<Rightarrow> real" where
  "convective_term c u i j q =
     scalar_product (tensor2_times_tensor1 (velocity_gradient c j q) u) (velocity_value c i q)
       * JxW c q"

definition temam_term :: "fe_cell \<Rightarrow> real \<Rightarrow> nat \<Rightarrow> nat \<Rightarrow> nat \<Rightarrow> real" where
  "temam_term c div_u i j q =
     0.5 * div_u * scalar_product (velocity_value c i q) (velocity_value c j q) * JxW c q"

definition pressure_terms :: "fe_cell \<Rightarrow> nat \<Rightarrow> nat \<Rightarrow> nat \<Rightarrow> real" where
  "pressure_terms c i j q =
     - (pressure_value c j q * velocity_divergence c i q * JxW c q)
     + pressure_value c i q * velocity_divergence c j q * JxW c q"

definition pressure_mass_term :: "ns_config \<Rightarrow> fe_cell \<Rightarrow> nat \<Rightarrow> nat \<Rightarrow> nat \<Rightarrow> real" where
  "pressure_mass_term cfg c i j q =
     pressure_value c i q * pressure_value c j q / nu cfg * JxW c q"

definition rhs_term :: "ns_config \<Rightarrow> fe_cell \<Rightarrow> tensor1 \<Rightarrow> nat \<Rightarrow> nat \<Rightarrow> real" where
  "rhs_term cfg c u i q =
     scalar_product u (velocity_value c i q) * JxW c q / deltat cfg"

definition cell_stiffness_matrix :: "ns_config \<Rightarrow> fe_cell \<Rightarrow> nat \<Rightarrow> nat \<Rightarrow> real" where
  "cell_stiffness_matrix cfg c i j = accumulate (n_q cfg) (viscosity_term cfg c i j)"

definition cell_mass_matrix :: "ns_config \<Rightarrow> fe_cell \<Rightarrow> nat \<Rightarrow> nat \<Rightarrow> real" where
  "cell_mass_matrix cfg c i j = accumulate (n_q cfg) (time_derivative_term cfg c i j)"

definition cell_matrix :: "ns_config \<Rightarrow> fe_cell \<Rightarrow> nat \<Rightarrow> nat \<Rightarrow> real" where
  "cell_matrix cfg c i j = accumulate (n_q cfg) (pressure_terms c i j)"

definition cell_pressure_mass_matrix :: "ns_config \<Rightarrow> fe_cell \<Rightarrow> nat \<Rightarrow> nat \<Rightarrow> real" where
  "cell_pressure_mass_matrix cfg c i j = accumulate (n_q cfg) (pressure_mass_term cfg c i j)"

text \<open>
  The convection block of \<^verbatim>\<open>assemble\<close> (lines 251 to 255): the convective term and
  the Temam term, both with the velocity and the divergence of \<^verbatim>\<open>solution\<close>.
\<close>

definition cell_convection_matrix :: "ns_config \<Rightarrow> fe_cell \<Rightarrow> vector \<Rightarrow> nat \<Rightarrow> nat \<Rightarrow> real" where
  "cell_convection_matrix cfg c sol i j =
     accumulate (n_q cfg) (\<lambda>q.
       convective_term c (get_function_values (dofs_per_cell cfg) c sol q) i j q
       + temam_term c (get_function_divergences (dofs_per_cell cfg) c sol q) i j q)"

definition cell_rhs :: "ns_config \<Rightarrow> fe_cell \<Rightarrow> vector \<Rightarrow> nat \<Rightarrow> real" where
  "cell_rhs cfg c sol i =
     accumulate (n_q cfg) (\<lambda>q.
       rhs_term cfg c (get_function_values (dofs_per_cell cfg) c sol q) i q)"

text \<open>
  The cell loop of \<^verbatim>\<open>assemble_time_step\<close> (lines 442 to 463). The values of
  \<^verbatim>\<open>previous_solution\<close> and the divergences are fetched (lines 432 to 440) and not
  used; the convection block has the convective term alone, the right-hand side the
  term of \<^verbatim>\<open>assemble\<close>. The mass increment exists for the time \<open>-1\<close> only.
\<close>

definition bdf2_mass_term :: "ns_config \<Rightarrow> fe_cell \<Rightarrow> nat \<Rightarrow> nat \<Rightarrow> nat \<Rightarrow> real" where
  "bdf2_mass_term cfg c i j q =
     0.5 * scalar_product (velocity_value c i q) (velocity_value c j q) / deltat cfg * JxW c q"

definition cell_mass_matrix_time_step ::
  "ns_config \<Rightarrow> real \<Rightarrow> fe_cell \<Rightarrow> nat \<Rightarrow> nat \<Rightarrow> real" where
  "cell_mass_matrix_time_step cfg time c i j =
     accumulate (n_q cfg) (\<lambda>q. if time = -1 then bdf2_mass_term cfg c i j q else 0)"

definition cell_convection_matrix_time_step ::
  "ns_config \<Rightarrow> fe_cell \<Rightarrow> vector \<Rightarrow> vector \<Rightarrow> nat \<Rightarrow> nat \<Rightarrow> real" where
  "cell_convection_matrix_time_step cfg c sol prev i j =
     accumulate (n_q cfg) (\<lambda>q.
       convective_term c (get_function_values (dofs_per_cell cfg) c sol q) i j q)"

definition cell_rhs_time_step :: "ns_config \<Rightarrow> fe_cell \<Rightarrow> vector \<Rightarrow> vector \<Rightarrow> nat \<Rightarrow> real" where
  "cell_rhs_time_step cfg c sol prev i =
     accumulate (n_q cfg) (\<lambda>q.
       rhs_term cfg c (get_function_values (dofs_per_cell cfg) c sol q) i q)"

section \<open>Global assembly\<close>

text \<open>
  \<^verbatim>\<open>matrix.add(dof_indices, cell_matrix)\<close> and \<^verbatim>\<open>vector.add(dof_indices, cell_rhs)\<close>:
  the local entry \<open>(i, j)\<close> is added to the global entry of the rows and columns that
  \<open>dof_indices\<close> names.
\<close>

definition add_local_matrix ::
  "nat \<Rightarrow> (nat \<Rightarrow> nat) \<Rightarrow> (nat \<Rightarrow> nat \<Rightarrow> real) \<Rightarrow> matrix \<Rightarrow> matrix" where
  "add_local_matrix n dofs local M =
     (\<lambda>I J. M I J
        + accumulate n (\<lambda>i. accumulate n (\<lambda>j. if dofs i = I \<and> dofs j = J then local i j else 0)))"

definition add_local_vector ::
  "nat \<Rightarrow> (nat \<Rightarrow> nat) \<Rightarrow> (nat \<Rightarrow> real) \<Rightarrow> vector \<Rightarrow> vector" where
  "add_local_vector n dofs local v =
     (\<lambda>I. v I + accumulate n (\<lambda>i. if dofs i = I then local i else 0))"

text \<open>
  The loop over the active cells, skipping the cells that are not locally owned. The
  source fills all its matrices in one loop; each \<^verbatim>\<open>add\<close> has its own target, so
  the loop is written once per target. The model follows one process that owns the
  cells flagged so; \<^verbatim>\<open>compress\<close> changes nothing there.
\<close>

primrec assemble_cells_matrix ::
  "nat \<Rightarrow> (fe_cell \<Rightarrow> nat \<Rightarrow> nat \<Rightarrow> real) \<Rightarrow> fe_cell list \<Rightarrow> matrix \<Rightarrow> matrix" where
  "assemble_cells_matrix n local [] M = M"
| "assemble_cells_matrix n local (c # cs) M =
     assemble_cells_matrix n local cs
       (if is_locally_owned c then add_local_matrix n (dof_indices c) (local c) M else M)"

primrec assemble_cells_vector ::
  "nat \<Rightarrow> (fe_cell \<Rightarrow> nat \<Rightarrow> real) \<Rightarrow> fe_cell list \<Rightarrow> vector \<Rightarrow> vector" where
  "assemble_cells_vector n local [] v = v"
| "assemble_cells_vector n local (c # cs) v =
     assemble_cells_vector n local cs
       (if is_locally_owned c then add_local_vector n (dof_indices c) (local c) v else v)"

section \<open>Dirichlet boundary conditions\<close>

text \<open>\<^verbatim>\<open>ComponentMask({true, true, true, false})\<close>: the three velocity components.\<close>

definition component_mask :: "bool list" where
  "component_mask = [True, True, True, False]"

definition mask_selects :: "bool list \<Rightarrow> nat \<Rightarrow> bool" where
  "mask_selects msk c = (c < length msk \<and> msk ! c)"

text \<open>
  Modelled from the spec: \<^verbatim>\<open>VectorTools::interpolate_boundary_values\<close> is the
  boundary-value collaborator of the library, absent from the sources. Given the map
  from boundary region to prescribed function, it enters, for every boundary DoF of a
  region of the map whose component the mask selects, the value of the function at the
  support point of the DoF; an entry already in the map is overwritten.
\<close>

primrec interpolate_boundary_values ::
  "boundary_dof list \<Rightarrow> (nat \<rightharpoonup> ((nat \<Rightarrow> real) \<Rightarrow> nat \<Rightarrow> real)) \<Rightarrow> bool list
     \<Rightarrow> (nat \<rightharpoonup> real) \<Rightarrow> (nat \<rightharpoonup> real)" where
  "interpolate_boundary_values [] fs msk bv = bv"
| "interpolate_boundary_values (d # ds) fs msk bv =
     interpolate_boundary_values ds fs msk
       (case fs (bd_boundary_id d) of
          None \<Rightarrow> bv
        | Some f \<Rightarrow>
            if mask_selects msk (bd_component d)
            then bv(bd_dof d \<mapsto> f (bd_support_point d) (bd_component d))
            else bv)"

definition zero_function :: "(nat \<Rightarrow> real) \<Rightarrow> nat \<Rightarrow> real" where
  "zero_function p c = 0"

text \<open>
  The map \<^verbatim>\<open>boundary_values\<close> of both assembly routines: the inlet profile at the
  given time on region 0 first, then, with \<^verbatim>\<open>boundary_functions\<close> cleared, zero on
  regions 2 and 3, into the same map.
\<close>

definition boundary_values :: "ns_config \<Rightarrow> real \<Rightarrow> (nat \<rightharpoonup> real)" where
  "boundary_values cfg time =
     (let bv1 = interpolate_boundary_values (boundary_dofs cfg)
                  [0 \<mapsto> inlet_velocity cfg time] component_mask Map.empty
      in interpolate_boundary_values (boundary_dofs cfg)
           [2 \<mapsto> zero_function, 3 \<mapsto> zero_function] component_mask bv1)"

text \<open>
  Modelled from the spec: \<^verbatim>\<open>MatrixTools::apply_boundary_values\<close> is library code,
  absent from the sources; the source calls it with \<^verbatim>\<open>eliminate_columns = false\<close>.
  For every constrained DoF the off-diagonal entries of its row are zeroed, the diagonal
  is set to a representative value and the right-hand side entry is rewritten so that
  the row yields the prescribed value; the solution vector passed along receives the
  prescribed value. The representative value is the one the library takes for a
  block matrix: the diagonal entry the row has when that is not zero, otherwise the
  magnitude of the first nonzero diagonal entry of the diagonal block of the row,
  otherwise 1. Rows of unconstrained DoFs are not touched.
\<close>

definition block_range :: "ns_config \<Rightarrow> nat \<Rightarrow> nat list" where
  "block_range cfg I = (if I < n_u cfg then [0..<n_u cfg] else [n_u cfg..<n_u cfg + n_p cfg])"

definition average_nonzero_diagonal_entry :: "matrix \<Rightarrow> nat list \<Rightarrow> real" where
  "average_nonzero_diagonal_entry A rows =
     (case filter (\<lambda>i. A i i \<noteq> 0) rows of [] \<Rightarrow> 1 | i # _ \<Rightarrow> \<bar>A i i\<bar>)"

definition new_diag_value :: "ns_config \<Rightarrow> matrix \<Rightarrow> nat \<Rightarrow> real" where
  "new_diag_value cfg A I =
     (if A I I \<noteq> 0 then A I I else average_nonzero_diagonal_entry A (block_range cfg I))"

definition apply_boundary_values :: "ns_config \<Rightarrow> (nat \<rightharpoonup> real) \<Rightarrow> ns_state \<Rightarrow> ns_state" where
  "apply_boundary_values cfg bv st =
     st\<lparr>system_matrix :=
          (\<lambda>I J. if bv I \<noteq> None
                 then (if I = J then new_diag_value cfg (system_matrix st) I else 0)
                 else system_matrix st I J),
        solution :=
          (\<lambda>I. case bv I of Some g \<Rightarrow> g | None \<Rightarrow> solution st I),
        system_rhs :=
          (\<lambda>I. case bv I of
                  Some g \<Rightarrow> g * new_diag_value cfg (system_matrix st) I
                | None \<Rightarrow> system_rhs st I)\<rparr>"

section \<open>The two assembly routines\<close>

text \<open>
  \<^verbatim>\<open>NavierStokes::assemble\<close>: all blocks are zeroed and assembled from the cells,
  the pressure coupling directly into the system matrix; then mass, convection and
  stiffness are added to the system matrix and the Dirichlet conditions applied. The
  forcing term is evaluated in the source and enters no sum; the Neumann term is
  guarded by the constant \<^verbatim>\<open>false\<close>.
\<close>

definition coupling_block :: "ns_config \<Rightarrow> matrix" where
  "coupling_block cfg =
     assemble_cells_matrix (dofs_per_cell cfg) (cell_matrix cfg) (cells cfg) zero_matrix"

definition assemble :: "ns_config \<Rightarrow> real \<Rightarrow> ns_state \<Rightarrow> ns_state" where
  "assemble cfg time st =
     (let n = dofs_per_cell cfg;
          sol = solution st;
          B = assemble_cells_matrix n (cell_matrix cfg) (cells cfg) zero_matrix;
          M = assemble_cells_matrix n (cell_mass_matrix cfg) (cells cfg) zero_matrix;
          C = assemble_cells_matrix n (\<lambda>c. cell_convection_matrix cfg c sol) (cells cfg)
                zero_matrix;
          A = assemble_cells_matrix n (cell_stiffness_matrix cfg) (cells cfg) zero_matrix;
          b = assemble_cells_vector n (\<lambda>c. cell_rhs cfg c sol) (cells cfg) zero_vector;
          Mp = assemble_cells_matrix n (cell_pressure_mass_matrix cfg) (cells cfg) zero_matrix;
          F = matrix_add 1 A (matrix_add 1 C (matrix_add 1 M B))
      in apply_boundary_values cfg (boundary_values cfg time)
           (st\<lparr>system_matrix := F, mass_matrix := M, convection_matrix := C,
               stiffness_matrix := A, pressure_mass := Mp, system_rhs := b,
               pcout := pcout st @ [AssemblingTheSystem]\<rparr>))"

text \<open>
  \<^verbatim>\<open>NavierStokes::assemble_time_step\<close>: the stored convection block is subtracted
  from the system matrix, the convection block and the right-hand side are zeroed and
  assembled again, the new convection block is added and the Dirichlet conditions
  applied. For the time \<open>-1\<close> alone the stored mass block is subtracted too, the
  increments of line 451 are added to the mass block, which is not zeroed, and the mass
  block is added back. The backflow term is guarded by the constant \<^verbatim>\<open>false\<close>.
\<close>

definition assemble_time_step :: "ns_config \<Rightarrow> real \<Rightarrow> ns_state \<Rightarrow> ns_state" where
  "assemble_time_step cfg time st =
     (let n = dofs_per_cell cfg;
          sol = solution st;
          prev = previous_solution st;
          F1 = matrix_add (-1) (convection_matrix st) (system_matrix st);
          F2 = (if time = -1 then matrix_add (-1) (mass_matrix st) F1 else F1);
          log = (if time = -1 then [ReinitializeMassMatrixForBDF2] else []);
          M = (if time = -1
               then assemble_cells_matrix n (cell_mass_matrix_time_step cfg time) (cells cfg)
                      (mass_matrix st)
               else mass_matrix st);
          C = assemble_cells_matrix n (\<lambda>c. cell_convection_matrix_time_step cfg c sol prev)
                (cells cfg) zero_matrix;
          b = assemble_cells_vector n (\<lambda>c. cell_rhs_time_step cfg c sol prev) (cells cfg)
                zero_vector;
          F3 = (if time = -1 then matrix_add 1 M F2 else F2);
          F = matrix_add 1 C F3
      in apply_boundary_values cfg (boundary_values cfg time)
           (st\<lparr>system_matrix := F, mass_matrix := M, convection_matrix := C,
               system_rhs := b,
               pcout := pcout st @ [AssemblingTheSystem] @ log\<rparr>))"

section \<open>Initialisation\<close>

text \<open>
  The coupling table of \<^verbatim>\<open>NavierStokes::setup\<close> (lines 109 to 119) for the sparsity
  pattern of the system matrix, and the state that routine leaves: matrices and vectors
  initialised to zero.
\<close>

datatype dof_coupling = DoFTools_always | DoFTools_none

definition coupling :: "nat \<Rightarrow> nat \<Rightarrow> dof_coupling" where
  "coupling c d = (if c = dim \<and> d = dim then DoFTools_none else DoFTools_always)"

definition setup_state :: ns_state where
  "setup_state =
     \<lparr>system_matrix = zero_matrix, mass_matrix = zero_matrix, convection_matrix = zero_matrix,
      stiffness_matrix = zero_matrix, pressure_mass = zero_matrix, system_rhs = zero_vector,
      solution_owned = zero_vector, solution = zero_vector, previous_solution = zero_vector,
      pcout = []\<rparr>"

section \<open>The linear solve of a time step\<close>

definition maxiter :: nat where
  "maxiter = 100000"

definition tol :: real where
  "tol = 1 / 10000"

text \<open>
  Modelled from the spec: the restarted GMRES routine and its \<^verbatim>\<open>SolverControl\<close> are
  library code, absent from the sources. The iteration stops at the first iteration
  count whose residual norm is below the tolerance, or at the iteration cap, and
  reports which of the two occurred. The library reports the second by throwing
  \<^verbatim>\<open>SolverControl::NoConvergence\<close> with the iteration count and the residual.
\<close>

function gmres_iterations :: "nat \<Rightarrow> real \<Rightarrow> (nat \<Rightarrow> real) \<Rightarrow> nat \<Rightarrow> nat \<times> bool" where
  "gmres_iterations cap eps res k =
     (if res k < eps then (k, True)
      else if cap \<le> k then (k, False)
      else gmres_iterations cap eps res (Suc k))"
  by pat_completeness auto
termination
  by (relation "measure (\<lambda>(cap, eps, res, k). cap - k)") auto

definition solver_solve ::
  "ns_config \<Rightarrow> nat \<Rightarrow> real \<Rightarrow> matrix \<Rightarrow> vector \<Rightarrow> vector \<Rightarrow> preconditioner
     \<Rightarrow> solver_exception + (vector \<times> nat)" where
  "solver_solve cfg cap eps A x b P =
     (let iterate = krylov cfg A x b P;
          (k, converged) = gmres_iterations cap eps (\<lambda>k. snd (iterate k)) 0
      in if converged then Inr (fst (iterate k), k)
         else Inl (NoConvergence k (snd (iterate k))))"

text \<open>\<^verbatim>\<open>matrix.block(r, c)\<close>: the view of a block, velocity DoFs first.\<close>

definition block_offset :: "ns_config \<Rightarrow> nat \<Rightarrow> nat" where
  "block_offset cfg b = (if b = 0 then 0 else n_u cfg)"

definition block :: "ns_config \<Rightarrow> matrix \<Rightarrow> nat \<Rightarrow> nat \<Rightarrow> matrix" where
  "block cfg A r c = (\<lambda>i j. A (block_offset cfg r + i) (block_offset cfg c + j))"

definition preconditioner_type :: nat where
  "preconditioner_type = 0"

text \<open>
  The \<^verbatim>\<open>switch\<close> of \<^verbatim>\<open>solve_time_step\<close> on the preconditioner type, with its
  \<^verbatim>\<open>default\<close> that throws.
\<close>

definition initialize_preconditioner ::
  "ns_config \<Rightarrow> nat \<Rightarrow> ns_state \<Rightarrow> solver_exception + preconditioner" where
  "initialize_preconditioner cfg ty st =
     (let F = system_matrix st; M = mass_matrix st in
      if ty = 0 then
        Inr (PreconditionYosida (block cfg F 0 0) (block cfg F 1 0) (block cfg F 0 1)
               (block cfg M 0 0))
      else if ty = 1 then
        Inr (PreconditionSIMPLE (block cfg F 0 0) (block cfg F 1 0) (block cfg F 0 1))
      else if ty = 2 then
        Inr (PreconditionaYosida (block cfg F 0 0) (block cfg F 1 0) (block cfg F 0 1)
               (block cfg M 0 0))
      else if ty = 3 then
        Inr (PreconditionaSIMPLE (block cfg F 0 0) (block cfg F 1 0) (block cfg F 0 1))
      else Inl InvalidPreconditionerType)"

text \<open>
  \<^verbatim>\<open>NavierStokes::solve_time_step\<close>. The source has no handler around
  \<^verbatim>\<open>solver.solve\<close>: what the solver throws leaves the routine before the line that
  prints the iteration count. The wall-clock timers are not part of the model.
\<close>

definition solve_time_step :: "ns_config \<Rightarrow> ns_state \<Rightarrow> solver_exception + ns_state" where
  "solve_time_step cfg st =
     (let st1 = st\<lparr>previous_solution := solution st\<rparr> in
      case initialize_preconditioner cfg preconditioner_type st1 of
        Inl e \<Rightarrow> Inl e
      | Inr P \<Rightarrow>
          (case solver_solve cfg maxiter tol (system_matrix st1) (solution_owned st1)
                  (system_rhs st1) P of
             Inl e \<Rightarrow> Inl e
           | Inr (x, last_step) \<Rightarrow>
               Inr (st1\<lparr>solution_owned := x, solution := x,
                        pcout := pcout st1 @ [ResultGMRESIterations last_step]\<rparr>)))"

section \<open>Forces on the obstacle\<close>

text \<open>
  The body of the loop over the face quadrature points of \<^verbatim>\<open>compute_forces\<close>
  (lines 797 to 825): the increments of \<^verbatim>\<open>local_drag\<close> and \<^verbatim>\<open>local_lift\<close>. The
  division of the tangent by its squared norm is the one division of the loop; a zero
  divisor, where the program goes on with a value that is not a number, is the
  outcome \<open>DivisionByZero\<close> here.
\<close>

definition face_pressure_values :: "ns_config \<Rightarrow> fe_cell \<Rightarrow> fe_face \<Rightarrow> vector \<Rightarrow> nat \<Rightarrow> real" where
  "face_pressure_values cfg c f sol q =
     accumulate (dofs_per_cell cfg) (\<lambda>i. sol (dof_indices c i) * face_pressure_value f i q)"

definition face_velocity_gradients ::
  "ns_config \<Rightarrow> fe_cell \<Rightarrow> fe_face \<Rightarrow> vector \<Rightarrow> nat \<Rightarrow> tensor2" where
  "face_velocity_gradients cfg c f sol q =
     (\<lambda>d e. accumulate (dofs_per_cell cfg)
               (\<lambda>i. sol (dof_indices c i) * face_velocity_gradient f i q d e))"

definition tangent_of :: "tensor1 \<Rightarrow> tensor1" where
  "tangent_of n = (\<lambda>d. if d = 0 then n 1 else if d = 1 then - n 0 else 0)"

definition traction_at ::
  "ns_config \<Rightarrow> fe_cell \<Rightarrow> fe_face \<Rightarrow> vector \<Rightarrow> nat \<Rightarrow> solver_exception + (real \<times> real)" where
  "traction_at cfg c f sol q =
     (let n = (\<lambda>d. - normal_vector f q d);
          nx = n 0;
          ny = n 1;
          tangent = tangent_of n;
          grad_u = face_velocity_gradients cfg c f sol q;
          p = face_pressure_values cfg c f sol q
      in if norm_square tangent = 0 then Inl DivisionByZero
         else
           (let t = (\<lambda>d. tangent d / norm_square tangent);
                shear = scalar_product
                          (tensor1_times_tensor2 (\<lambda>d. rho cfg * nu cfg * n d) grad_u) t
            in Inr ((shear * ny - p * nx) * face_JxW f q,
                    - ((shear * nx + p * ny) * face_JxW f q))))"

primrec face_quadrature_loop ::
  "ns_config \<Rightarrow> fe_cell \<Rightarrow> fe_face \<Rightarrow> vector \<Rightarrow> nat \<Rightarrow> real \<times> real
     \<Rightarrow> solver_exception + (real \<times> real)" where
  "face_quadrature_loop cfg c f sol 0 acc = Inr acc"
| "face_quadrature_loop cfg c f sol (Suc q) acc =
     (case face_quadrature_loop cfg c f sol q acc of
        Inl e \<Rightarrow> Inl e
      | Inr (local_drag, local_lift) \<Rightarrow>
          (case traction_at cfg c f sol q of
             Inl e \<Rightarrow> Inl e
           | Inr (d, l) \<Rightarrow> Inr (local_drag + d, local_lift + l)))"

primrec faces_loop ::
  "ns_config \<Rightarrow> fe_cell \<Rightarrow> vector \<Rightarrow> fe_face list \<Rightarrow> real \<times> real
     \<Rightarrow> solver_exception + (real \<times> real)" where
  "faces_loop cfg c sol [] acc = Inr acc"
| "faces_loop cfg c sol (f # fs) acc =
     (if face_at_boundary f \<and> boundary_id f = 3
      then (case face_quadrature_loop cfg c f sol (n_q_face cfg) acc of
              Inl e \<Rightarrow> Inl e
            | Inr acc' \<Rightarrow> faces_loop cfg c sol fs acc')
      else faces_loop cfg c sol fs acc)"

primrec forces_cells_loop ::
  "ns_config \<Rightarrow> vector \<Rightarrow> fe_cell list \<Rightarrow> real \<times> real \<Rightarrow> solver_exception + (real \<times> real)" where
  "forces_cells_loop cfg sol [] acc = Inr acc"
| "forces_cells_loop cfg sol (c # cs) acc =
     (if \<not> is_locally_owned c then forces_cells_loop cfg sol cs acc
      else if at_boundary c
      then (case faces_loop cfg c sol (faces c) acc of
              Inl e \<Rightarrow> Inl e
            | Inr acc' \<Rightarrow> forces_cells_loop cfg sol cs acc')
      else forces_cells_loop cfg sol cs acc)"

text \<open>
  \<^verbatim>\<open>NavierStokes::compute_forces\<close>: the local sums, their sum over the processes
  (one process here) and the coefficients with the mean inflow velocity of the current
  time. The coefficients divide by \<open>rho * mean_v\<^sup>2 * D * H\<close>; a zero divisor is the
  outcome \<open>DivisionByZero\<close>, as in the traction loop.
\<close>

definition compute_forces ::
  "ns_config \<Rightarrow> real \<Rightarrow> ns_state \<Rightarrow> solver_exception + ((real \<times> real) \<times> ns_state)" where
  "compute_forces cfg time st =
     (case forces_cells_loop cfg (solution st) (cells cfg) (0, 0) of
        Inl e \<Rightarrow> Inl e
      | Inr (drag, lift) \<Rightarrow>
          (let mean_v = getMeanVelocity cfg time;
               D = 0.1;
               H = 0.41;
               denominator = rho cfg * mean_v * mean_v * D * H
           in if denominator = 0 then Inl DivisionByZero
              else
                (let c_d = (2 * drag) / denominator;
                     c_l = (2 * lift) / denominator
                 in Inr ((c_d, c_l),
                         st\<lparr>pcout := pcout st @ [DragLift drag lift, Coeff c_d c_l]\<rparr>))))"

section \<open>The pressure-difference probe\<close>

definition p_a :: "nat \<Rightarrow> real" where
  "p_a = (\<lambda>d. if d = 0 then 0.45 else if d = 1 then 0.2 else 0.205)"

definition p_e :: "nat \<Rightarrow> real" where
  "p_e = (\<lambda>d. if d = 0 then 0.55 else if d = 1 then 0.2 else 0.205)"

text \<open>
  What one process makes of a probe point (lines 858 to 891): the pressure component
  of \<^verbatim>\<open>point_value\<close>, or \<open>0\<close> when \<^verbatim>\<open>ExcPointNotAvailableHere\<close> is caught. Any other
  exception is not caught.
\<close>

definition pres_point :: "ns_config \<Rightarrow> ns_state \<Rightarrow> (nat \<Rightarrow> real) \<Rightarrow> nat \<Rightarrow> solver_exception + real" where
  "pres_point cfg st p rank =
     (case point_value cfg rank (solution st) p of
        Inl e \<Rightarrow> if e = ExcPointNotAvailableHere then Inr 0 else Inl e
      | Inr solution_values \<Rightarrow> Inr (solution_values dim))"

primrec all_ranks :: "(nat \<Rightarrow> solver_exception + real) \<Rightarrow> nat list \<Rightarrow> solver_exception + real list" where
  "all_ranks f [] = Inr []"
| "all_ranks f (r # rs) =
     (case f r of
        Inl e \<Rightarrow> Inl e
      | Inr x \<Rightarrow> (case all_ranks f rs of Inl e \<Rightarrow> Inl e | Inr xs \<Rightarrow> Inr (x # xs)))"

text \<open>\<^verbatim>\<open>MPI_Reduce\<close> with \<^verbatim>\<open>MPI_MAX\<close> of one value per rank, as rank 0 receives it.\<close>

definition mpi_reduce_max :: "real list \<Rightarrow> real" where
  "mpi_reduce_max xs = (case xs of [] \<Rightarrow> 0 | x # rest \<Rightarrow> foldl max x rest)"

definition global_pres_point :: "ns_config \<Rightarrow> ns_state \<Rightarrow> (nat \<Rightarrow> real) \<Rightarrow> solver_exception + real" where
  "global_pres_point cfg st p =
     (case all_ranks (pres_point cfg st p) [0..<mpi_size cfg] of
        Inl e \<Rightarrow> Inl e
      | Inr xs \<Rightarrow> Inr (mpi_reduce_max xs))"

definition compute_pressure_difference :: "ns_config \<Rightarrow> ns_state \<Rightarrow> solver_exception + ns_state" where
  "compute_pressure_difference cfg st =
     (case global_pres_point cfg st p_a of
        Inl e \<Rightarrow> Inl e
      | Inr global_pres_point1 \<Rightarrow>
          (case global_pres_point cfg st p_e of
             Inl e \<Rightarrow> Inl e
           | Inr global_pres_point2 \<Rightarrow>
               Inr (st\<lparr>pcout := pcout st
                         @ [PressureDifference (global_pres_point1 - global_pres_point2)]\<rparr>)))"

section \<open>The time loop\<close>

record run_state =
  state :: ns_state
  time :: real
  time_step :: nat
  c_D_max :: real
  c_L_min :: real

text \<open>\<^verbatim>\<open>NavierStokes::output\<close>, as far as the log is concerned.\<close>

definition output_step :: "nat \<Rightarrow> ns_state \<Rightarrow> ns_state" where
  "output_step n st = st\<lparr>pcout := pcout st @ [OutputWritten n]\<rparr>"

text \<open>
  The body of the \<^verbatim>\<open>while\<close> loop of \<^verbatim>\<open>NavierStokes::solve\<close> (lines 713 to 734).
  An exception of the linear solve or of the probe leaves the loop. Where the force
  computation divides by zero the modelled run stops with \<open>DivisionByZero\<close>.
\<close>

definition update_coefficients ::
  "ns_config \<Rightarrow> real \<Rightarrow> ns_state \<Rightarrow> real \<Rightarrow> real \<Rightarrow> solver_exception + (ns_state \<times> real \<times> real)" where
  "update_coefficients cfg t st cd cl =
     (if t > 0.1
      then (case compute_forces cfg t st of
              Inl e \<Rightarrow> Inl e
            | Inr (coefficients, st') \<Rightarrow>
                Inr (st', max (fst coefficients) cd, min (snd coefficients) cl))
      else Inr (st, cd, cl))"

definition solve_step :: "ns_config \<Rightarrow> run_state \<Rightarrow> solver_exception + run_state" where
  "solve_step cfg rs =
     (let t = time rs + deltat cfg;
          n = time_step rs + 1;
          st0 = (state rs)\<lparr>pcout := pcout (state rs) @ [StepHeader n t]\<rparr>;
          st1 = (if t = deltat cfg then assemble cfg t st0 else assemble_time_step cfg t st0)
      in case solve_time_step cfg st1 of
           Inl e \<Rightarrow> Inl e
         | Inr st2 \<Rightarrow>
             (case (if t = final_time cfg - deltat cfg
                    then compute_pressure_difference cfg st2 else Inr st2) of
                Inl e \<Rightarrow> Inl e
              | Inr st3 \<Rightarrow>
                  (case update_coefficients cfg t st3 (c_D_max rs) (c_L_min rs) of
                     Inl e \<Rightarrow> Inl e
                   | Inr (st4, cd, cl) \<Rightarrow>
                       Inr \<lparr>state = (if n mod 20 = 0 then output_step n st4 else st4),
                            time = t, time_step = n, c_D_max = cd, c_L_min = cl\<rparr>)))"

text \<open>
  The loop may not end (a step size that is not positive never reaches the final
  time), so it runs on fuel: \<open>None\<close> is the loop still running when the fuel is spent.
\<close>

primrec solve_loop ::
  "nat \<Rightarrow> ns_config \<Rightarrow> run_state \<Rightarrow> (solver_exception + run_state) option" where
  "solve_loop 0 cfg rs =
     (if time rs < final_time cfg - 0.5 * deltat cfg then None else Some (Inr rs))"
| "solve_loop (Suc fuel) cfg rs =
     (if time rs < final_time cfg - 0.5 * deltat cfg
      then (case solve_step cfg rs of
              Inl e \<Rightarrow> Some (Inl e)
            | Inr rs' \<Rightarrow> solve_loop fuel cfg rs')
      else Some (Inr rs))"

definition initial_run_state :: "ns_config \<Rightarrow> ns_state \<Rightarrow> run_state" where
  "initial_run_state cfg st =
     \<lparr>state = output_step 0 (st\<lparr>solution_owned := u_0 cfg, solution := u_0 cfg\<rparr>),
      time = 0, time_step = 0, c_D_max = - 999, c_L_min = 999\<rparr>"

definition final_summary :: "run_state \<Rightarrow> run_state" where
  "final_summary rs =
     rs\<lparr>state := (state rs)\<lparr>pcout := pcout (state rs)
          @ [DragCoefficientMax (c_D_max rs), LiftCoefficientMin (c_L_min rs)]\<rparr>\<rparr>"

definition solve :: "nat \<Rightarrow> ns_config \<Rightarrow> ns_state \<Rightarrow> (solver_exception + run_state) option" where
  "solve fuel cfg st =
     (case solve_loop fuel cfg (initial_run_state cfg st) of
        None \<Rightarrow> None
      | Some (Inl e) \<Rightarrow> Some (Inl e)
      | Some (Inr rs) \<Rightarrow> Some (Inr (final_summary rs)))"

section \<open>States of a run and what the log shows\<close>

text \<open>
  The run state after \<open>k\<close> passes through the body of the time loop, and the
  projections of the log that the properties below speak about.
\<close>

primrec run_steps :: "nat \<Rightarrow> ns_config \<Rightarrow> run_state \<Rightarrow> solver_exception + run_state" where
  "run_steps 0 cfg rs = Inr rs"
| "run_steps (Suc k) cfg rs =
     (case run_steps k cfg rs of Inl e \<Rightarrow> Inl e | Inr rs' \<Rightarrow> solve_step cfg rs')"



text \<open>The DoFs that the Dirichlet map constrains: regions 0, 2 and 3, velocity components.\<close>

definition constrained :: "ns_config \<Rightarrow> nat \<Rightarrow> bool" where
  "constrained cfg I =
     (\<exists>d \<in> set (boundary_dofs cfg).
        bd_dof d = I \<and> bd_boundary_id d \<in> {0, 2, 3} \<and> mask_selects component_mask (bd_component d))"

text \<open>
  The numbering \<^verbatim>\<open>DoFRenumbering::component_wise\<close> gives in \<^verbatim>\<open>NavierStokes::setup\<close>
  (lines 67 to 69): the velocity DoFs come first, and a shape function of a pressure DoF
  has no velocity part. Likewise a boundary DoF of a velocity component is a velocity
  DoF.
\<close>

definition pressure_shape_function :: "ns_config \<Rightarrow> fe_cell \<Rightarrow> nat \<Rightarrow> bool" where
  "pressure_shape_function cfg c i =
     (\<forall>q < n_q cfg.
        velocity_divergence c i q = 0 \<and>
        (\<forall>d < dim. velocity_value c i q d = 0 \<and> (\<forall>e < dim. velocity_gradient c i q d e = 0)))"

definition component_wise :: "ns_config \<Rightarrow> bool" where
  "component_wise cfg =
     ((\<forall>c \<in> set (cells cfg). \<forall>i < dofs_per_cell cfg.
         n_u cfg \<le> dof_indices c i \<longrightarrow> pressure_shape_function cfg c i)
      \<and> (\<forall>d \<in> set (boundary_dofs cfg). bd_component d < dim \<longrightarrow> bd_dof d < n_u cfg))"

text \<open>The precondition of the traction loop: no quadrature normal of a face of region 3
  of an owned boundary cell is parallel to the z-axis.\<close>

definition no_normal_along_z :: "ns_config \<Rightarrow> bool" where
  "no_normal_along_z cfg =
     (\<forall>c \<in> set (cells cfg). is_locally_owned c \<and> at_boundary c \<longrightarrow>
        (\<forall>f \<in> set (faces c). face_at_boundary f \<and> boundary_id f = 3 \<longrightarrow>
           (\<forall>q < n_q_face cfg. \<not> (normal_vector f q 0 = 0 \<and> normal_vector f q 1 = 0))))"

section \<open>Predicates of the properties\<close>

text \<open>The DoFs a call of \<open>interpolate_boundary_values\<close> enters into the map.\<close>

definition selected_dofs ::
  "boundary_dof list \<Rightarrow> (nat \<rightharpoonup> ((nat \<Rightarrow> real) \<Rightarrow> nat \<Rightarrow> real)) \<Rightarrow> bool list \<Rightarrow> nat set" where
  "selected_dofs ds fs msk =
     {I. \<exists>d \<in> set ds. bd_dof d = I \<and> fs (bd_boundary_id d) \<noteq> None
                        \<and> mask_selects msk (bd_component d)}"

text \<open>
  The state a time step has when its assembly is complete: the header of the step is
  printed, then the first-step routine runs if the new time equals the step size, the
  routine of the later steps otherwise (lines 713 to 722).
\<close>

definition assembly_of_step :: "ns_config \<Rightarrow> run_state \<Rightarrow> ns_state" where
  "assembly_of_step cfg rs =
     (let t = time rs + deltat cfg;
          st0 = (state rs)\<lparr>pcout := pcout (state rs) @ [StepHeader (time_step rs + 1) t]\<rparr>
      in if t = deltat cfg then assemble cfg t st0 else assemble_time_step cfg t st0)"

text \<open>Two states with the same system matrix and the same blocks.\<close>

definition same_operators :: "ns_state \<Rightarrow> ns_state \<Rightarrow> bool" where
  "same_operators st st' =
     (system_matrix st' = system_matrix st \<and> mass_matrix st' = mass_matrix st
      \<and> convection_matrix st' = convection_matrix st
      \<and> stiffness_matrix st' = stiffness_matrix st)"

text \<open>
  On every row that no Dirichlet condition constrains, the system matrix is the sum of
  the stored mass, stiffness and convection blocks and of the pressure coupling.
\<close>

definition sum_of_blocks :: "ns_config \<Rightarrow> ns_state \<Rightarrow> bool" where
  "sum_of_blocks cfg st =
     (\<forall>I J. \<not> constrained cfg I \<longrightarrow>
        system_matrix st I J =
          mass_matrix st I J + stiffness_matrix st I J + convection_matrix st I J
          + coupling_block cfg I J)"

text \<open>The entries of a matrix that couple a pressure DoF to a pressure DoF are zero.\<close>

definition pressure_block_zero :: "ns_config \<Rightarrow> matrix \<Rightarrow> bool" where
  "pressure_block_zero cfg A = (\<forall>I J. n_u cfg \<le> I \<longrightarrow> n_u cfg \<le> J \<longrightarrow> A I J = 0)"

definition pressure_blocks_zero :: "ns_config \<Rightarrow> ns_state \<Rightarrow> bool" where
  "pressure_blocks_zero cfg st =
     (pressure_block_zero cfg (system_matrix st) \<and> pressure_block_zero cfg (mass_matrix st)
      \<and> pressure_block_zero cfg (convection_matrix st))"

text \<open>
  The precondition of the traction loop, loop by loop: the quadrature points of a
  face, the faces of a cell, the cells.
\<close>

definition normals_ok :: "fe_face \<Rightarrow> nat \<Rightarrow> bool" where
  "normals_ok f n = (\<forall>q < n. \<not> (normal_vector f q 0 = 0 \<and> normal_vector f q 1 = 0))"

definition faces_ok :: "ns_config \<Rightarrow> fe_face list \<Rightarrow> bool" where
  "faces_ok cfg fs =
     (\<forall>f \<in> set fs. face_at_boundary f \<and> boundary_id f = 3 \<longrightarrow> normals_ok f (n_q_face cfg))"

definition cells_ok :: "ns_config \<Rightarrow> fe_cell list \<Rightarrow> bool" where
  "cells_ok cfg cs =
     (\<forall>c \<in> set cs. is_locally_owned c \<and> at_boundary c \<longrightarrow> faces_ok cfg (faces c))"


section \<open>A small instance\<close>

text \<open>
  One owned cell with one quadrature point and three local DoFs: two velocity DoFs
  along x (global 0 and 1) and one pressure DoF (global 2). Its boundary face lies in
  region 3 with normal along y. DoF 0 lies on region 0 and on region 2. Two
  processes; the probe points lie in the partition of rank 1, where the pressure is
  negative.
\<close>

definition example_face :: fe_face where
  "example_face =
     \<lparr>face_at_boundary = True, boundary_id = 3,
      normal_vector = (\<lambda>q d. if d = 1 then 1 else 0),
      face_JxW = (\<lambda>q. 1),
      face_velocity_gradient = (\<lambda>i q d e. if i = 1 \<and> d = 0 \<and> e = 1 then 1 else 0),
      face_pressure_value = (\<lambda>i q. if i = 2 then 1 else 0)\<rparr>"

definition example_cell :: fe_cell where
  "example_cell =
     \<lparr>is_locally_owned = True, at_boundary = True,
      dof_indices = (\<lambda>i. i),
      velocity_value = (\<lambda>i q d. if i < 2 \<and> d = 0 then 1 else 0),
      velocity_gradient =
        (\<lambda>i q d e. if i = 0 \<and> d = 0 \<and> e = 0 then 1 else if i = 1 \<and> d = 0 \<and> e = 0 then 2 else 0),
      velocity_divergence = (\<lambda>i q. if i = 0 then 1 else if i = 1 then 2 else 0),
      pressure_value = (\<lambda>i q. if i = 2 then 1 else 0),
      JxW = (\<lambda>q. 1),
      faces = [example_face]\<rparr>"

definition example_boundary_dofs :: "boundary_dof list" where
  "example_boundary_dofs =
     [\<lparr>bd_dof = 0, bd_boundary_id = 0, bd_component = 0, bd_support_point = (\<lambda>d. 0)\<rparr>,
      \<lparr>bd_dof = 0, bd_boundary_id = 2, bd_component = 0, bd_support_point = (\<lambda>d. 0)\<rparr>,
      \<lparr>bd_dof = 2, bd_boundary_id = 2, bd_component = 3, bd_support_point = (\<lambda>d. 0)\<rparr>]"

definition example_point_value ::
  "nat \<Rightarrow> vector \<Rightarrow> (nat \<Rightarrow> real) \<Rightarrow> solver_exception + (nat \<Rightarrow> real)" where
  "example_point_value rank sol p =
     (if rank = 1 then Inr (\<lambda>d. if p 0 < 0.5 then - 1 else - 3)
      else Inl ExcPointNotAvailableHere)"

definition example_cfg :: ns_config where
  "example_cfg =
     \<lparr>deltat = 1 / 2, final_time = 1, nu = 1, rho = 1, n_u = 2, n_p = 1,
      dofs_per_cell = 3, n_q = 1, n_q_face = 1,
      cells = [example_cell],
      boundary_dofs = example_boundary_dofs,
      inlet_velocity = (\<lambda>t p c. 1),
      getMeanVelocity = (\<lambda>t. 1),
      u_0 = (\<lambda>i. 1),
      krylov = (\<lambda>A x b P k. ((\<lambda>i. 1), 0)),
      mpi_size = 2,
      point_value = example_point_value\<rparr>"



text \<open>The same instance with the face normal along z.\<close>

definition z_face_cfg :: ns_config where
  "z_face_cfg =
     example_cfg\<lparr>cells :=
       [example_cell\<lparr>faces := [example_face\<lparr>normal_vector := (\<lambda>q d. if d = 2 then 1 else 0)\<rparr>]\<rparr>]\<rparr>"

text \<open>
  A state of the instance in the middle of a run: the current field is 1 at every DoF,
  the previous field 5.
\<close>

definition example_solution :: vector where
  "example_solution = (\<lambda>i. 1)"

definition example_previous :: vector where
  "example_previous = (\<lambda>i. 5)"

definition example_state :: ns_state where
  "example_state =
     setup_state\<lparr>solution_owned := example_solution, solution := example_solution,
                 previous_solution := example_previous\<rparr>"

text \<open>The instance with any step size and final time, and its run states.\<close>

definition timed_cfg :: "real \<Rightarrow> real \<Rightarrow> ns_config" where
  "timed_cfg d T = example_cfg\<lparr>deltat := d, final_time := T\<rparr>"


definition example_after :: "nat \<Rightarrow> run_state" where
  "example_after k = projr (run_steps k example_cfg (initial_run_state example_cfg setup_state))"

section \<open>Evaluation of the small instance\<close>

lemmas example_simps =
  example_cfg_def example_cell_def example_face_def example_boundary_dofs_def
  example_solution_def example_previous_def example_state_def setup_state_def
  example_point_value_def

lemma boundary_values_example: "boundary_values example_cfg t = [0 \<mapsto> 0]"
  by (simp add: boundary_values_def example_simps component_mask_def mask_selects_def
      zero_function_def)

section \<open>Dirichlet enforcement\<close>

lemma new_diag_value_nonzero: "new_diag_value cfg A I \<noteq> 0"
proof (cases "A I I = 0")
  case False
  then show ?thesis by (simp add: new_diag_value_def)
next
  case True
  show ?thesis
  proof (cases "filter (\<lambda>i. A i i \<noteq> 0) (block_range cfg I)")
    case Nil
    with True show ?thesis
      by (simp add: new_diag_value_def average_nonzero_diagonal_entry_def)
  next
    case (Cons i rest)
    then have "i \<in> set (filter (\<lambda>i. A i i \<noteq> 0) (block_range cfg I))" by simp
    then have "A i i \<noteq> 0" by simp
    with True Cons show ?thesis
      by (simp add: new_diag_value_def average_nonzero_diagonal_entry_def)
  qed
qed

lemma system_matrix_apply_boundary_values:
  "system_matrix (apply_boundary_values cfg bv st) I J =
     (if bv I \<noteq> None then (if I = J then new_diag_value cfg (system_matrix st) I else 0)
      else system_matrix st I J)"
  by (simp add: apply_boundary_values_def)

lemma system_rhs_apply_boundary_values:
  "system_rhs (apply_boundary_values cfg bv st) I =
     (case bv I of
        Some g \<Rightarrow> g * new_diag_value cfg (system_matrix st) I
      | None \<Rightarrow> system_rhs st I)"
  by (simp add: apply_boundary_values_def)

lemma solution_apply_boundary_values:
  "solution (apply_boundary_values cfg bv st) I =
     (case bv I of Some g \<Rightarrow> g | None \<Rightarrow> solution st I)"
  by (simp add: apply_boundary_values_def)

lemma other_fields_apply_boundary_values:
  "mass_matrix (apply_boundary_values cfg bv st) = mass_matrix st"
  "convection_matrix (apply_boundary_values cfg bv st) = convection_matrix st"
  "stiffness_matrix (apply_boundary_values cfg bv st) = stiffness_matrix st"
  "pressure_mass (apply_boundary_values cfg bv st) = pressure_mass st"
  "solution_owned (apply_boundary_values cfg bv st) = solution_owned st"
  "previous_solution (apply_boundary_values cfg bv st) = previous_solution st"
  "pcout (apply_boundary_values cfg bv st) = pcout st"
  by (simp_all add: apply_boundary_values_def)

lemma new_diag_value_kept:
  assumes "bv I \<noteq> None"
  shows "new_diag_value cfg (system_matrix (apply_boundary_values cfg bv st)) I
           = new_diag_value cfg (system_matrix st) I"
proof -
  have "system_matrix (apply_boundary_values cfg bv st) I I
          = new_diag_value cfg (system_matrix st) I"
    using assms by (simp add: system_matrix_apply_boundary_values)
  moreover have "new_diag_value cfg (system_matrix st) I \<noteq> 0"
    by (rule new_diag_value_nonzero)
  ultimately show ?thesis
    by (subst new_diag_value_def) simp
qed

text \<open>
  Claim C7. Applying the same Dirichlet map a second time to a system that is already
  constrained changes nothing: neither the constrained rows, nor their right-hand side
  entries, nor any other part of the state. This holds for every map, hence for the map
  the assembly routines build from the inflow region 0 first and the no-slip regions 2
  and 3 after it.
\<close>

theorem apply_boundary_values_idempotent:
  "apply_boundary_values cfg bv (apply_boundary_values cfg bv st)
     = apply_boundary_values cfg bv st"
proof -
  let ?st1 = "apply_boundary_values cfg bv st"
  have m: "system_matrix (apply_boundary_values cfg bv ?st1) = system_matrix ?st1"
  proof (rule ext, rule ext)
    fix I J
    show "system_matrix (apply_boundary_values cfg bv ?st1) I J = system_matrix ?st1 I J"
    proof (cases "bv I = None")
      case True
      then show ?thesis by (simp add: system_matrix_apply_boundary_values)
    next
      case False
      then show ?thesis
        using new_diag_value_kept [of bv I cfg st]
        by (auto simp: system_matrix_apply_boundary_values)
    qed
  qed
  have r: "system_rhs (apply_boundary_values cfg bv ?st1) = system_rhs ?st1"
  proof (rule ext)
    fix I
    show "system_rhs (apply_boundary_values cfg bv ?st1) I = system_rhs ?st1 I"
      using new_diag_value_kept [of bv I cfg st]
      by (cases "bv I") (simp_all add: system_rhs_apply_boundary_values)
  qed
  have s: "solution (apply_boundary_values cfg bv ?st1) = solution ?st1"
  proof (rule ext)
    fix I
    show "solution (apply_boundary_values cfg bv ?st1) I = solution ?st1 I"
      by (cases "bv I") (simp_all add: solution_apply_boundary_values)
  qed
  have "apply_boundary_values cfg bv ?st1
          = ?st1\<lparr>system_matrix := system_matrix (apply_boundary_values cfg bv ?st1),
                 solution := solution (apply_boundary_values cfg bv ?st1),
                 system_rhs := system_rhs (apply_boundary_values cfg bv ?st1)\<rparr>"
    by (simp add: apply_boundary_values_def)
  then show ?thesis
    using m r s by simp
qed

section \<open>The Dirichlet map and the fields of the assembled state\<close>

lemma selected_dofs_Nil: "selected_dofs [] fs msk = {}"
  by (simp add: selected_dofs_def)

lemma selected_dofs_Cons:
  "selected_dofs (d # ds) fs msk =
     (if fs (bd_boundary_id d) \<noteq> None \<and> mask_selects msk (bd_component d)
      then insert (bd_dof d) (selected_dofs ds fs msk) else selected_dofs ds fs msk)"
  by (auto simp: selected_dofs_def)

lemma interpolate_boundary_values_dom:
  "dom (interpolate_boundary_values ds fs msk bv) = dom bv \<union> selected_dofs ds fs msk"
proof (induction ds arbitrary: bv)
  case Nil
  show ?case by (simp add: selected_dofs_Nil)
next
  case (Cons d ds)
  show ?case
  proof (cases "fs (bd_boundary_id d)")
    case None
    then show ?thesis by (simp add: Cons.IH selected_dofs_Cons)
  next
    case (Some f)
    then show ?thesis by (auto simp: Cons.IH selected_dofs_Cons)
  qed
qed

lemma boundary_values_dom: "dom (boundary_values cfg t) = {I. constrained cfg I}"
  unfolding boundary_values_def Let_def interpolate_boundary_values_dom
  by (auto simp: selected_dofs_def constrained_def split: if_splits)

lemma boundary_values_None: "(boundary_values cfg t I = None) = (\<not> constrained cfg I)"
proof -
  have "(I \<in> dom (boundary_values cfg t)) = constrained cfg I"
    unfolding boundary_values_dom by simp
  then show ?thesis
    unfolding domIff by blast
qed

lemma boundary_values_Some:
  "constrained cfg I \<Longrightarrow> \<exists>g. boundary_values cfg t I = Some g"
  using boundary_values_None [of cfg t I] by auto

lemma assemble_fields:
  "mass_matrix (assemble cfg t st) =
     assemble_cells_matrix (dofs_per_cell cfg) (cell_mass_matrix cfg) (cells cfg) zero_matrix"
  "stiffness_matrix (assemble cfg t st) =
     assemble_cells_matrix (dofs_per_cell cfg) (cell_stiffness_matrix cfg) (cells cfg) zero_matrix"
  "convection_matrix (assemble cfg t st) =
     assemble_cells_matrix (dofs_per_cell cfg) (\<lambda>c. cell_convection_matrix cfg c (solution st))
       (cells cfg) zero_matrix"
  "pcout (assemble cfg t st) = pcout st @ [AssemblingTheSystem]"
  "solution_owned (assemble cfg t st) = solution_owned st"
  "previous_solution (assemble cfg t st) = previous_solution st"
  by (simp_all add: assemble_def Let_def other_fields_apply_boundary_values)

lemma system_matrix_assemble_unconstrained:
  assumes "\<not> constrained cfg I"
  shows "system_matrix (assemble cfg t st) I J =
           mass_matrix (assemble cfg t st) I J + stiffness_matrix (assemble cfg t st) I J
           + convection_matrix (assemble cfg t st) I J + coupling_block cfg I J"
proof -
  from assms have "boundary_values cfg t I = None" by (simp add: boundary_values_None)
  then show ?thesis
    by (simp add: assemble_def Let_def system_matrix_apply_boundary_values
        other_fields_apply_boundary_values matrix_add_def coupling_block_def)
qed

lemma system_matrix_assemble_constrained:
  assumes "constrained cfg I" and "I \<noteq> J"
  shows "system_matrix (assemble cfg t st) I J = 0"
proof -
  from assms obtain g where "boundary_values cfg t I = Some g"
    using boundary_values_Some by blast
  then show ?thesis
    using assms by (simp add: assemble_def Let_def system_matrix_apply_boundary_values)
qed

lemma assemble_time_step_fields:
  "mass_matrix (assemble_time_step cfg t st) =
     (if t = - 1
      then assemble_cells_matrix (dofs_per_cell cfg) (cell_mass_matrix_time_step cfg t) (cells cfg)
             (mass_matrix st)
      else mass_matrix st)"
  "stiffness_matrix (assemble_time_step cfg t st) = stiffness_matrix st"
  "convection_matrix (assemble_time_step cfg t st) =
     assemble_cells_matrix (dofs_per_cell cfg)
       (\<lambda>c. cell_convection_matrix_time_step cfg c (solution st) (previous_solution st))
       (cells cfg) zero_matrix"
  "pcout (assemble_time_step cfg t st) =
     pcout st @ [AssemblingTheSystem] @ (if t = - 1 then [ReinitializeMassMatrixForBDF2] else [])"
  "solution_owned (assemble_time_step cfg t st) = solution_owned st"
  "previous_solution (assemble_time_step cfg t st) = previous_solution st"
  by (simp_all add: assemble_time_step_def Let_def other_fields_apply_boundary_values)

lemma system_matrix_assemble_time_step_unconstrained:
  assumes "\<not> constrained cfg I"
  shows "system_matrix (assemble_time_step cfg t st) I J =
           system_matrix st I J - convection_matrix st I J - mass_matrix st I J
           + mass_matrix (assemble_time_step cfg t st) I J
           + convection_matrix (assemble_time_step cfg t st) I J"
proof -
  from assms have "boundary_values cfg t I = None" by (simp add: boundary_values_None)
  then show ?thesis
    by (simp add: assemble_time_step_def Let_def system_matrix_apply_boundary_values
        other_fields_apply_boundary_values matrix_add_def)
qed

lemma system_matrix_assemble_time_step_constrained:
  assumes "constrained cfg I" and "I \<noteq> J"
  shows "system_matrix (assemble_time_step cfg t st) I J = 0"
proof -
  from assms obtain g where "boundary_values cfg t I = Some g"
    using boundary_values_Some by blast
  then show ?thesis
    using assms by (simp add: assemble_time_step_def Let_def system_matrix_apply_boundary_values)
qed

lemma system_rhs_assemble_time_step:
  "system_rhs (assemble_time_step cfg t st) I =
     (case boundary_values cfg t I of
        Some g \<Rightarrow> g * system_matrix (assemble_time_step cfg t st) I I
      | None \<Rightarrow>
          assemble_cells_vector (dofs_per_cell cfg)
            (\<lambda>c. cell_rhs_time_step cfg c (solution st) (previous_solution st))
            (cells cfg) zero_vector I)"
  by (cases "boundary_values cfg t I")
     (simp_all add: assemble_time_step_def Let_def system_rhs_apply_boundary_values
      system_matrix_apply_boundary_values)

section \<open>One pass through the loop body\<close>

lemma same_operators_refl: "same_operators st st"
  by (simp add: same_operators_def)

lemma same_operators_trans:
  "same_operators a b \<Longrightarrow> same_operators b c \<Longrightarrow> same_operators a c"
  by (simp add: same_operators_def)

lemma solve_time_step_Inr:
  assumes "solve_time_step cfg st = Inr st'"
  shows "\<exists>x k. st' = st\<lparr>previous_solution := solution st, solution_owned := x, solution := x,
                         pcout := pcout st @ [ResultGMRESIterations k]\<rparr>"
  using assms
  by (auto simp: solve_time_step_def Let_def split: sum.splits prod.splits)

lemma compute_pressure_difference_Inr:
  assumes "compute_pressure_difference cfg st = Inr st'"
  shows "\<exists>d. st' = st\<lparr>pcout := pcout st @ [PressureDifference d]\<rparr>"
  using assms
  by (auto simp: compute_pressure_difference_def split: sum.splits)

lemma compute_forces_Inr:
  assumes "compute_forces cfg t st = Inr (coefficients, st')"
  shows "\<exists>drag lift. st' = st\<lparr>pcout := pcout st
            @ [DragLift drag lift, Coeff (fst coefficients) (snd coefficients)]\<rparr>"
proof -
  from assms obtain drag lift where
    "st' = st\<lparr>pcout := pcout st
            @ [DragLift drag lift, Coeff (fst coefficients) (snd coefficients)]\<rparr>"
    by (auto simp: compute_forces_def Let_def split: sum.splits prod.splits if_splits)
  then show ?thesis by blast
qed

lemma update_coefficients_Inr:
  assumes "update_coefficients cfg t st cd cl = Inr (st', cd', cl')"
  shows "(t > 0.1 \<and> (\<exists>drag lift c_d c_l.
             st' = st\<lparr>pcout := pcout st @ [DragLift drag lift, Coeff c_d c_l]\<rparr>
             \<and> cd' = max c_d cd \<and> cl' = min c_l cl))
         \<or> (\<not> t > 0.1 \<and> st' = st \<and> cd' = cd \<and> cl' = cl)"
proof (cases "t > 0.1")
  case False
  with assms show ?thesis by (simp add: update_coefficients_def)
next
  case True
  with assms obtain coefficients where cf: "compute_forces cfg t st = Inr (coefficients, st')"
    and "cd' = max (fst coefficients) cd" and "cl' = min (snd coefficients) cl"
    by (auto simp: update_coefficients_def split: sum.splits prod.splits)
  with compute_forces_Inr [OF cf] True show ?thesis by blast
qed

lemma solve_step_unfold:
  "solve_step cfg rs =
     (case solve_time_step cfg (assembly_of_step cfg rs) of
        Inl e \<Rightarrow> Inl e
      | Inr st2 \<Rightarrow>
          (case (if time rs + deltat cfg = final_time cfg - deltat cfg
                 then compute_pressure_difference cfg st2 else Inr st2) of
             Inl e \<Rightarrow> Inl e
           | Inr st3 \<Rightarrow>
               (case update_coefficients cfg (time rs + deltat cfg) st3 (c_D_max rs)
                       (c_L_min rs) of
                  Inl e \<Rightarrow> Inl e
                | Inr (st4, cd, cl) \<Rightarrow>
                    Inr \<lparr>state = (if (time_step rs + 1) mod 20 = 0
                                  then output_step (time_step rs + 1) st4 else st4),
                         time = time rs + deltat cfg, time_step = time_step rs + 1,
                         c_D_max = cd, c_L_min = cl\<rparr>)))"
  unfolding solve_step_def assembly_of_step_def Let_def ..

lemma solve_step_Inr:
  assumes "solve_step cfg rs = Inr rs'"
  shows "time rs' = time rs + deltat cfg \<and> time_step rs' = time_step rs + 1
         \<and> same_operators (assembly_of_step cfg rs) (state rs')"
proof -
  let ?t = "time rs + deltat cfg"
  let ?st1 = "assembly_of_step cfg rs"
  from assms obtain st2 st3 st4 cd cl where
    s2: "solve_time_step cfg ?st1 = Inr st2" and
    s3: "(if ?t = final_time cfg - deltat cfg then compute_pressure_difference cfg st2 else Inr st2) = Inr st3" and
    s4: "update_coefficients cfg ?t st3 (c_D_max rs) (c_L_min rs) = Inr (st4, cd, cl)" and
    r: "rs' = \<lparr>state = (if (time_step rs + 1) mod 20 = 0 then output_step (time_step rs + 1) st4 else st4),
                time = ?t, time_step = time_step rs + 1, c_D_max = cd, c_L_min = cl\<rparr>"
    by (auto simp: solve_step_def assembly_of_step_def Let_def split: sum.splits prod.splits)
  have a: "same_operators ?st1 st2"
    using solve_time_step_Inr [OF s2] by (auto simp: same_operators_def)
  have b: "same_operators st2 st3"
    using s3 compute_pressure_difference_Inr [of cfg st2 st3]
    by (auto simp: same_operators_def split: if_splits)
  have c: "same_operators st3 st4"
    using update_coefficients_Inr [OF s4] by (auto simp: same_operators_def)
  have d: "same_operators st4 (state rs')"
    using r by (simp add: same_operators_def output_step_def)
  from a b c d have "same_operators ?st1 (state rs')"
    by (blast intro: same_operators_trans)
  with r show ?thesis by simp
qed

lemma pcout_assembly_of_step:
  "pcout (assembly_of_step cfg rs) =
     pcout (state rs) @ [StepHeader (time_step rs + 1) (time rs + deltat cfg), AssemblingTheSystem]
       @ (if time rs + deltat cfg \<noteq> deltat cfg \<and> time rs + deltat cfg = - 1
          then [ReinitializeMassMatrixForBDF2] else [])"
  by (simp add: assembly_of_step_def Let_def assemble_fields assemble_time_step_fields)

lemma solve_step_log:
  assumes "solve_step cfg rs = Inr rs'"
  shows "\<exists>k pd fr out.
           pcout (state rs') = pcout (assembly_of_step cfg rs) @ [ResultGMRESIterations k] @ pd @ fr @ out
           \<and> (pd = [] \<or> (\<exists>d. pd = [PressureDifference d]))
           \<and> ((time rs + deltat cfg > 0.1 \<and> (\<exists>drag lift c_d c_l.
                   fr = [DragLift drag lift, Coeff c_d c_l]
                   \<and> c_D_max rs' = max c_d (c_D_max rs) \<and> c_L_min rs' = min c_l (c_L_min rs)))
               \<or> (\<not> time rs + deltat cfg > 0.1 \<and> fr = []
                   \<and> c_D_max rs' = c_D_max rs \<and> c_L_min rs' = c_L_min rs))
           \<and> (out = [] \<or> (\<exists>n. out = [OutputWritten n]))"
proof -
  let ?t = "time rs + deltat cfg"
  let ?st1 = "assembly_of_step cfg rs"
  from assms obtain st2 st3 st4 cd cl where
    s2: "solve_time_step cfg ?st1 = Inr st2" and
    s3: "(if ?t = final_time cfg - deltat cfg then compute_pressure_difference cfg st2 else Inr st2) = Inr st3" and
    s4: "update_coefficients cfg ?t st3 (c_D_max rs) (c_L_min rs) = Inr (st4, cd, cl)" and
    r: "rs' = \<lparr>state = (if (time_step rs + 1) mod 20 = 0 then output_step (time_step rs + 1) st4 else st4),
                time = ?t, time_step = time_step rs + 1, c_D_max = cd, c_L_min = cl\<rparr>"
    by (auto simp: solve_step_def assembly_of_step_def Let_def split: sum.splits prod.splits)
  from solve_time_step_Inr [OF s2] obtain k where
    p2: "pcout st2 = pcout ?st1 @ [ResultGMRESIterations k]" by auto
  from s3 compute_pressure_difference_Inr [of cfg st2 st3] obtain pd where
    p3: "pcout st3 = pcout st2 @ pd" and pd: "pd = [] \<or> (\<exists>d. pd = [PressureDifference d])"
    by (cases "?t = final_time cfg - deltat cfg") auto
  from update_coefficients_Inr [OF s4] obtain fr where
    p4: "pcout st4 = pcout st3 @ fr" and
    fr: "(?t > 0.1 \<and> (\<exists>drag lift c_d c_l. fr = [DragLift drag lift, Coeff c_d c_l]
                   \<and> cd = max c_d (c_D_max rs) \<and> cl = min c_l (c_L_min rs)))
         \<or> (\<not> ?t > 0.1 \<and> fr = [] \<and> cd = c_D_max rs \<and> cl = c_L_min rs)"
    by auto
  from r obtain out where
    p5: "pcout (state rs') = pcout st4 @ out" and out: "out = [] \<or> (\<exists>n. out = [OutputWritten n])"
    by (cases "(time_step rs + 1) mod 20 = 0") (auto simp: output_step_def)
  have cdl: "c_D_max rs' = cd" "c_L_min rs' = cl" using r by simp_all
  have "pcout (state rs') = pcout ?st1 @ [ResultGMRESIterations k] @ pd @ fr @ out"
    using p2 p3 p4 p5 by simp
  with pd fr out cdl show ?thesis by blast
qed



lemma run_steps_invariant:
  assumes "run_steps k cfg rs = Inr rs'" and "P rs"
    and "\<And>r r'. P r \<Longrightarrow> solve_step cfg r = Inr r' \<Longrightarrow> P r'"
  shows "P rs'"
  using assms(1)
proof (induction k arbitrary: rs')
  case 0
  with assms(2) show ?case by simp
next
  case (Suc k)
  then obtain r where "run_steps k cfg rs = Inr r" and "solve_step cfg r = Inr rs'"
    by (auto split: sum.splits)
  with Suc.IH assms(3) show ?case by blast
qed


lemma run_steps_time:
  assumes "run_steps k cfg rs = Inr rs'"
  shows "time rs' = time rs + real k * deltat cfg \<and> time_step rs' = time_step rs + k"
  using assms
proof (induction k arbitrary: rs')
  case 0
  then show ?case by simp
next
  case (Suc k)
  then obtain r where a: "run_steps k cfg rs = Inr r" and b: "solve_step cfg r = Inr rs'"
    by (auto split: sum.splits)
  from Suc.IH [OF a] solve_step_Inr [OF b] show ?case
    by (simp add: algebra_simps)
qed

section \<open>Invariants of the blocks\<close>

lemma sum_of_blocks_assemble: "sum_of_blocks cfg (assemble cfg t st)"
  by (simp add: sum_of_blocks_def system_matrix_assemble_unconstrained)

lemma sum_of_blocks_assemble_time_step:
  assumes "sum_of_blocks cfg st"
  shows "sum_of_blocks cfg (assemble_time_step cfg t st)"
  unfolding sum_of_blocks_def
proof (intro allI impI)
  fix I J
  assume u: "\<not> constrained cfg I"
  from assms u have "system_matrix st I J =
      mass_matrix st I J + stiffness_matrix st I J + convection_matrix st I J
      + coupling_block cfg I J"
    by (simp add: sum_of_blocks_def)
  then show "system_matrix (assemble_time_step cfg t st) I J =
      mass_matrix (assemble_time_step cfg t st) I J
      + stiffness_matrix (assemble_time_step cfg t st) I J
      + convection_matrix (assemble_time_step cfg t st) I J + coupling_block cfg I J"
    by (simp add: system_matrix_assemble_time_step_unconstrained [OF u]
        assemble_time_step_fields(2))
qed

lemma sum_of_blocks_same_operators:
  "same_operators st st' \<Longrightarrow> sum_of_blocks cfg st \<Longrightarrow> sum_of_blocks cfg st'"
  by (simp add: same_operators_def sum_of_blocks_def)

lemma sum_of_blocks_header:
  "sum_of_blocks cfg (st\<lparr>pcout := l\<rparr>) = sum_of_blocks cfg st"
  by (simp add: sum_of_blocks_def)

lemma sum_of_blocks_assembly_of_step:
  assumes "time rs + deltat cfg = deltat cfg \<or> sum_of_blocks cfg (state rs)"
  shows "sum_of_blocks cfg (assembly_of_step cfg rs)"
proof (cases "time rs + deltat cfg = deltat cfg")
  case True
  then show ?thesis
    by (simp add: assembly_of_step_def Let_def sum_of_blocks_assemble)
next
  case False
  with assms have "sum_of_blocks cfg (state rs)" by simp
  with False show ?thesis
    by (simp add: assembly_of_step_def Let_def sum_of_blocks_assemble_time_step
        sum_of_blocks_header)
qed

lemma run_sum_of_blocks:
  assumes "run_steps k cfg (initial_run_state cfg st) = Inr rs"
  shows "time rs + deltat cfg = deltat cfg \<or> sum_of_blocks cfg (state rs)"
proof (rule run_steps_invariant [OF assms])
  show "time (initial_run_state cfg st) + deltat cfg = deltat cfg
        \<or> sum_of_blocks cfg (state (initial_run_state cfg st))"
    by (simp add: initial_run_state_def)
next
  fix r r'
  assume inv: "time r + deltat cfg = deltat cfg \<or> sum_of_blocks cfg (state r)"
    and step: "solve_step cfg r = Inr r'"
  from sum_of_blocks_assembly_of_step [OF inv] solve_step_Inr [OF step]
  have "sum_of_blocks cfg (state r')"
    by (blast intro: sum_of_blocks_same_operators)
  then show "time r' + deltat cfg = deltat cfg \<or> sum_of_blocks cfg (state r')" by simp
qed

lemma run_mass:
  assumes "0 < deltat cfg" and "run_steps k cfg (initial_run_state cfg st) = Inr rs"
  shows "k = 0 \<or> mass_matrix (state rs) =
           assemble_cells_matrix (dofs_per_cell cfg) (cell_mass_matrix cfg) (cells cfg) zero_matrix"
proof -
  let ?M = "assemble_cells_matrix (dofs_per_cell cfg) (cell_mass_matrix cfg) (cells cfg) zero_matrix"
  let ?P = "\<lambda>r. 0 \<le> time r \<and> (time r = 0 \<or> mass_matrix (state r) = ?M)"
  have "?P rs"
  proof (rule run_steps_invariant [OF assms(2)])
    show "?P (initial_run_state cfg st)" by (simp add: initial_run_state_def)
  next
    fix r r'
    assume inv: "?P r" and step: "solve_step cfg r = Inr r'"
    from solve_step_Inr [OF step] have t: "time r' = time r + deltat cfg"
      and m: "mass_matrix (state r') = mass_matrix (assembly_of_step cfg r)"
      by (simp_all add: same_operators_def)
    have "mass_matrix (assembly_of_step cfg r) = ?M"
    proof (cases "time r = 0")
      case True
      then show ?thesis by (simp add: assembly_of_step_def Let_def assemble_fields)
    next
      case False
      with inv assms(1) have "time r + deltat cfg \<noteq> - 1" and "mass_matrix (state r) = ?M"
        and "time r + deltat cfg \<noteq> deltat cfg" by auto
      then show ?thesis
        by (simp add: assembly_of_step_def Let_def assemble_time_step_fields)
    qed
    with t m inv assms(1) show "?P r'" by simp
  qed
  moreover from run_steps_time [OF assms(2)] have "time rs = real k * deltat cfg"
    by (simp add: initial_run_state_def)
  ultimately show ?thesis using assms(1) by auto
qed

lemma accumulate_all_zero: "(\<And>k. k < n \<Longrightarrow> f k = 0) \<Longrightarrow> accumulate n f = 0"
  by (induction n) simp_all

lemma scalar_product_zero_left: "(\<And>d. d < dim \<Longrightarrow> u d = 0) \<Longrightarrow> scalar_product u v = 0"
  by (simp add: scalar_product_def dim_def)

lemma scalar_product_zero_right: "(\<And>d. d < dim \<Longrightarrow> v d = 0) \<Longrightarrow> scalar_product u v = 0"
  by (simp add: scalar_product_def dim_def)

lemma scalar_product2_zero_left:
  "(\<And>d e. d < dim \<Longrightarrow> e < dim \<Longrightarrow> a d e = 0) \<Longrightarrow> scalar_product2 a b = 0"
  by (simp add: scalar_product2_def scalar_product_def dim_def)

lemma pressure_shape_functionD:
  assumes "pressure_shape_function cfg c i" and "q < n_q cfg"
  shows "velocity_divergence c i q = 0"
    and "\<And>d. d < dim \<Longrightarrow> velocity_value c i q d = 0"
    and "\<And>d e. d < dim \<Longrightarrow> e < dim \<Longrightarrow> velocity_gradient c i q d e = 0"
  using assms by (simp_all add: pressure_shape_function_def)

lemma local_pressure_pressure_zero:
  assumes i: "pressure_shape_function cfg c i" and j: "pressure_shape_function cfg c j"
  shows "cell_matrix cfg c i j = 0"
    and "cell_mass_matrix cfg c i j = 0"
    and "cell_stiffness_matrix cfg c i j = 0"
    and "cell_convection_matrix cfg c sol i j = 0"
    and "cell_convection_matrix_time_step cfg c sol prev i j = 0"
    and "cell_mass_matrix_time_step cfg t c i j = 0"
proof -
  show "cell_matrix cfg c i j = 0"
    unfolding cell_matrix_def
    by (rule accumulate_all_zero)
       (simp add: pressure_terms_def pressure_shape_functionD(1) [OF i]
          pressure_shape_functionD(1) [OF j])
  show "cell_mass_matrix cfg c i j = 0"
    unfolding cell_mass_matrix_def
    by (rule accumulate_all_zero)
       (simp add: time_derivative_term_def
          scalar_product_zero_left [OF pressure_shape_functionD(2) [OF i]])
  show "cell_stiffness_matrix cfg c i j = 0"
    unfolding cell_stiffness_matrix_def
    by (rule accumulate_all_zero)
       (simp add: viscosity_term_def
          scalar_product2_zero_left [OF pressure_shape_functionD(3) [OF i]])
  show "cell_convection_matrix cfg c sol i j = 0"
    unfolding cell_convection_matrix_def
    by (rule accumulate_all_zero)
       (simp add: convective_term_def temam_term_def
          scalar_product_zero_left [OF pressure_shape_functionD(2) [OF i]]
          scalar_product_zero_right [OF pressure_shape_functionD(2) [OF i]])
  show "cell_convection_matrix_time_step cfg c sol prev i j = 0"
    unfolding cell_convection_matrix_time_step_def
    by (rule accumulate_all_zero)
       (simp add: convective_term_def
          scalar_product_zero_right [OF pressure_shape_functionD(2) [OF i]])
  show "cell_mass_matrix_time_step cfg t c i j = 0"
    unfolding cell_mass_matrix_time_step_def
    by (rule accumulate_all_zero)
       (simp add: bdf2_mass_term_def
          scalar_product_zero_left [OF pressure_shape_functionD(2) [OF i]])
qed

lemma add_local_matrix_pressure_block:
  assumes "\<And>i j. i < n \<Longrightarrow> j < n \<Longrightarrow> m \<le> dofs i \<Longrightarrow> m \<le> dofs j \<Longrightarrow> local i j = 0"
    and "m \<le> I" and "m \<le> J"
  shows "add_local_matrix n dofs local M I J = M I J"
proof -
  have "accumulate n (\<lambda>i. accumulate n (\<lambda>j. if dofs i = I \<and> dofs j = J then local i j else 0)) = 0"
  proof (rule accumulate_all_zero)
    fix i assume i: "i < n"
    show "accumulate n (\<lambda>j. if dofs i = I \<and> dofs j = J then local i j else 0) = 0"
    proof (rule accumulate_all_zero)
      fix j assume j: "j < n"
      show "(if dofs i = I \<and> dofs j = J then local i j else 0) = 0"
        using assms i j by auto
    qed
  qed
  then show ?thesis by (simp add: add_local_matrix_def)
qed

lemma assemble_cells_matrix_pressure_block:
  assumes "\<And>c i j. c \<in> set cs \<Longrightarrow> i < n \<Longrightarrow> j < n \<Longrightarrow> m \<le> dof_indices c i
             \<Longrightarrow> m \<le> dof_indices c j \<Longrightarrow> local c i j = 0"
    and "m \<le> I" and "m \<le> J"
  shows "assemble_cells_matrix n local cs M I J = M I J"
  using assms(1)
proof (induction cs arbitrary: M)
  case Nil
  show ?case by simp
next
  case (Cons c cs)
  have "local c i j = 0"
    if "i < n" "j < n" "m \<le> dof_indices c i" "m \<le> dof_indices c j" for i j
    using that Cons.prems [of c i j] by simp
  then have step: "add_local_matrix n (dof_indices c) (local c) M I J = M I J"
    using assms(2,3) by (rule add_local_matrix_pressure_block [where m = m])
  have "assemble_cells_matrix n local cs M' I J = M' I J" for M'
    by (rule Cons.IH) (simp add: Cons.prems)
  then show ?case using step by simp
qed

lemma component_wise_cells:
  assumes "component_wise cfg" and "c \<in> set (cells cfg)" and "i < dofs_per_cell cfg"
    and "n_u cfg \<le> dof_indices c i"
  shows "pressure_shape_function cfg c i"
  using assms by (simp add: component_wise_def)

lemma constrained_is_velocity:
  assumes "component_wise cfg" and "constrained cfg I"
  shows "I < n_u cfg"
proof -
  from assms(2) obtain d where d: "d \<in> set (boundary_dofs cfg)" "bd_dof d = I"
    and m: "mask_selects component_mask (bd_component d)"
    by (auto simp: constrained_def)
  from m have "bd_component d < dim"
    by (cases "bd_component d = 3")
       (auto simp: mask_selects_def component_mask_def dim_def)
  with assms(1) d show ?thesis by (auto simp: component_wise_def)
qed

lemma assembled_pressure_block:
  assumes cw: "component_wise cfg" and I: "n_u cfg \<le> I" and J: "n_u cfg \<le> J"
    and local: "\<And>c i j. pressure_shape_function cfg c i \<Longrightarrow> pressure_shape_function cfg c j
                  \<Longrightarrow> local c i j = 0"
  shows "assemble_cells_matrix (dofs_per_cell cfg) local (cells cfg) M I J = M I J"
proof (rule assemble_cells_matrix_pressure_block [where m = "n_u cfg"])
  fix c i j
  assume "c \<in> set (cells cfg)" "i < dofs_per_cell cfg" "j < dofs_per_cell cfg"
    "n_u cfg \<le> dof_indices c i" "n_u cfg \<le> dof_indices c j"
  then have "pressure_shape_function cfg c i" "pressure_shape_function cfg c j"
    using cw by (simp_all add: component_wise_cells)
  then show "local c i j = 0" by (rule local)
qed (rule I, rule J)

lemma pressure_block_zero_assembled:
  assumes cw: "component_wise cfg" and M: "pressure_block_zero cfg M"
  shows "pressure_block_zero cfg
           (assemble_cells_matrix (dofs_per_cell cfg) (cell_matrix cfg) (cells cfg) M)"
    and "pressure_block_zero cfg
           (assemble_cells_matrix (dofs_per_cell cfg) (cell_mass_matrix cfg) (cells cfg) M)"
    and "pressure_block_zero cfg
           (assemble_cells_matrix (dofs_per_cell cfg) (cell_stiffness_matrix cfg) (cells cfg) M)"
    and "pressure_block_zero cfg
           (assemble_cells_matrix (dofs_per_cell cfg) (\<lambda>c. cell_convection_matrix cfg c sol)
              (cells cfg) M)"
    and "pressure_block_zero cfg
           (assemble_cells_matrix (dofs_per_cell cfg)
              (\<lambda>c. cell_convection_matrix_time_step cfg c sol prev) (cells cfg) M)"
    and "pressure_block_zero cfg
           (assemble_cells_matrix (dofs_per_cell cfg) (cell_mass_matrix_time_step cfg t)
              (cells cfg) M)"
  using M
  by (simp_all add: pressure_block_zero_def assembled_pressure_block [OF cw]
      local_pressure_pressure_zero)

lemma pressure_block_zero_zero: "pressure_block_zero cfg zero_matrix"
  by (simp add: pressure_block_zero_def zero_matrix_def)

lemma pressure_block_zero_matrix_add:
  "pressure_block_zero cfg A \<Longrightarrow> pressure_block_zero cfg B
     \<Longrightarrow> pressure_block_zero cfg (matrix_add a A B)"
  by (simp add: pressure_block_zero_def matrix_add_def)

lemma pressure_block_zero_apply_boundary_values:
  assumes cw: "component_wise cfg" and "pressure_block_zero cfg (system_matrix st)"
  shows "pressure_block_zero cfg (system_matrix (apply_boundary_values cfg (boundary_values cfg t) st))"
  unfolding pressure_block_zero_def
proof (intro allI impI)
  fix I J
  assume I: "n_u cfg \<le> I" and J: "n_u cfg \<le> J"
  from I constrained_is_velocity [OF cw, of I] have "\<not> constrained cfg I" by auto
  then have "boundary_values cfg t I = None" by (simp add: boundary_values_None)
  then show "system_matrix (apply_boundary_values cfg (boundary_values cfg t) st) I J = 0"
    using assms(2) I J by (simp add: system_matrix_apply_boundary_values pressure_block_zero_def)
qed

lemma pressure_blocks_zero_assemble:
  assumes cw: "component_wise cfg"
  shows "pressure_blocks_zero cfg (assemble cfg t st)"
  unfolding pressure_blocks_zero_def assemble_def Let_def
  by (simp add: other_fields_apply_boundary_values
      pressure_block_zero_apply_boundary_values [OF cw]
      pressure_block_zero_matrix_add
      pressure_block_zero_assembled [OF cw pressure_block_zero_zero])

lemma pressure_blocks_zero_assemble_time_step:
  assumes cw: "component_wise cfg" and "pressure_blocks_zero cfg st"
  shows "pressure_blocks_zero cfg (assemble_time_step cfg t st)"
  using assms(2)
  unfolding pressure_blocks_zero_def assemble_time_step_def Let_def
  by (simp add: other_fields_apply_boundary_values
      pressure_block_zero_apply_boundary_values [OF cw]
      pressure_block_zero_matrix_add
      pressure_block_zero_assembled [OF cw pressure_block_zero_zero]
      pressure_block_zero_assembled [OF cw])

lemma pressure_blocks_zero_run:
  assumes cw: "component_wise cfg"
    and run: "run_steps k cfg (initial_run_state cfg setup_state) = Inr rs"
  shows "pressure_blocks_zero cfg (state rs)"
proof (rule run_steps_invariant [OF run])
  show "pressure_blocks_zero cfg (state (initial_run_state cfg setup_state))"
    by (simp add: initial_run_state_def output_step_def setup_state_def pressure_blocks_zero_def
        pressure_block_zero_zero)
next
  fix r r'
  assume inv: "pressure_blocks_zero cfg (state r)" and step: "solve_step cfg r = Inr r'"
  have "pressure_blocks_zero cfg (assembly_of_step cfg r)"
  proof (cases "time r + deltat cfg = deltat cfg")
    case True
    then show ?thesis
      by (simp add: assembly_of_step_def Let_def pressure_blocks_zero_assemble [OF cw])
  next
    case False
    have "pressure_blocks_zero cfg (state r\<lparr>pcout := l\<rparr>)" for l
      using inv by (simp add: pressure_blocks_zero_def)
    with False show ?thesis
      by (simp add: assembly_of_step_def Let_def
          pressure_blocks_zero_assemble_time_step [OF cw])
  qed
  with solve_step_Inr [OF step] show "pressure_blocks_zero cfg (state r')"
    by (simp add: same_operators_def pressure_blocks_zero_def)
qed

section \<open>The Krylov iteration\<close>

lemma gmres_iterations_converged:
  "gmres_iterations cap eps res k = (n, True) \<Longrightarrow> res n < eps \<and> k \<le> n \<and> (n \<le> cap \<or> n = k)"
proof (induction cap eps res k rule: gmres_iterations.induct)
  case (1 cap eps res k)
  show ?case
  proof (cases "res k < eps")
    case True
    with "1.prems" show ?thesis by (simp add: gmres_iterations.simps [of cap eps res k])
  next
    case False
    note nc = this
    show ?thesis
    proof (cases "cap \<le> k")
      case True
      with nc "1.prems" show ?thesis by (simp add: gmres_iterations.simps [of cap eps res k])
    next
      case False
      with nc "1.prems" have "gmres_iterations cap eps res (Suc k) = (n, True)"
        by (simp add: gmres_iterations.simps [of cap eps res k])
      with "1.IH" nc False show ?thesis by auto
    qed
  qed
qed

lemma gmres_iterations_cap:
  "gmres_iterations cap eps res k = (n, False) \<Longrightarrow> \<not> res n < eps \<and> n = max cap k"
proof (induction cap eps res k rule: gmres_iterations.induct)
  case (1 cap eps res k)
  show ?case
  proof (cases "res k < eps")
    case True
    with "1.prems" show ?thesis by (simp add: gmres_iterations.simps [of cap eps res k])
  next
    case False
    note nc = this
    show ?thesis
    proof (cases "cap \<le> k")
      case True
      with nc "1.prems" show ?thesis by (simp add: gmres_iterations.simps [of cap eps res k])
    next
      case False
      with nc "1.prems" have "gmres_iterations cap eps res (Suc k) = (n, False)"
        by (simp add: gmres_iterations.simps [of cap eps res k])
      with "1.IH" nc False show ?thesis by auto
    qed
  qed
qed

lemma gmres_iterations_start: "res 0 < eps \<Longrightarrow> gmres_iterations cap eps res 0 = (0, True)"
  by (simp add: gmres_iterations.simps [of cap eps res 0])


lemma solver_solve_cases:
  "(\<exists>k. k \<le> cap \<and> snd (krylov cfg A x b P k) < eps
        \<and> solver_solve cfg cap eps A x b P = Inr (fst (krylov cfg A x b P k), k))
   \<or> (eps \<le> snd (krylov cfg A x b P cap)
        \<and> solver_solve cfg cap eps A x b P = Inl (NoConvergence cap (snd (krylov cfg A x b P cap))))"
proof -
  let ?res = "\<lambda>k. snd (krylov cfg A x b P k)"
  obtain n ok where g: "gmres_iterations cap eps ?res 0 = (n, ok)" by (cases "gmres_iterations cap eps ?res 0")
  show ?thesis
  proof (cases ok)
    case True
    with g gmres_iterations_converged [of cap eps ?res 0 n] have "?res n < eps" "n \<le> cap" by auto
    moreover from g True have "solver_solve cfg cap eps A x b P = Inr (fst (krylov cfg A x b P n), n)"
      by (simp add: solver_solve_def Let_def)
    ultimately show ?thesis by blast
  next
    case False
    with g gmres_iterations_cap [of cap eps ?res 0 n] have "\<not> ?res n < eps" "n = cap" by auto
    moreover from g False have "solver_solve cfg cap eps A x b P = Inl (NoConvergence n (?res n))"
      by (simp add: solver_solve_def Let_def)
    ultimately show ?thesis by simp
  qed
qed




section \<open>The convection block of the later steps\<close>

text \<open>
  Claim C4. The convective assembly of every step should hold the linearized term and
  the Temam term. On the small instance, for the entry \<open>(0, 1)\<close> of the cell and the
  field that is 1 at every DoF, the first-step routine gives \<open>11/2\<close>, the convective
  term \<open>4\<close> plus the Temam term \<open>3/2\<close>; the routine of the later steps gives \<open>4\<close>:
  the Temam term is not there.
\<close>

theorem temam_term_absent_from_time_step:
  "cell_convection_matrix example_cfg example_cell example_solution 0 1 = 11 / 2
   \<and> cell_convection_matrix_time_step example_cfg example_cell example_solution
        example_previous 0 1 = 4
   \<and> temam_term example_cell
        (get_function_divergences (dofs_per_cell example_cfg) example_cell example_solution 0)
        0 1 0 = 3 / 2"
  by (simp add: cell_convection_matrix_def cell_convection_matrix_time_step_def example_simps
      convective_term_def temam_term_def get_function_values_def get_function_divergences_def
      scalar_product_def tensor2_times_tensor1_def eval_nat_numeral)

section \<open>The pressure probe\<close>

text \<open>
  Claim C6. A process that does not own a probe point contributes zero and raises
  nothing, and the value of the owner should reach rank 0 through the maximum over the
  processes. On the small instance rank 0 does not own the points and rank 1 reads
  the pressures \<open>-1\<close> and \<open>-3\<close>: the maximum with the zero of rank 0 is \<open>0\<close> for both
  points and the reported difference is \<open>0\<close>, not \<open>2\<close>.
\<close>

theorem probe_maximum_loses_negative_pressure:
  "pres_point example_cfg example_state p_a 0 = Inr 0
   \<and> pres_point example_cfg example_state p_a 1 = Inr (- 1)
   \<and> pres_point example_cfg example_state p_e 1 = Inr (- 3)
   \<and> global_pres_point example_cfg example_state p_a = Inr 0
   \<and> global_pres_point example_cfg example_state p_e = Inr 0
   \<and> compute_pressure_difference example_cfg example_state
       = Inr (example_state\<lparr>pcout := [PressureDifference 0]\<rparr>)"
  by (simp add: compute_pressure_difference_def global_pres_point_def pres_point_def
      example_simps mpi_reduce_max_def p_a_def p_e_def dim_def eval_nat_numeral upt_rec)

section \<open>The small instance, step by step\<close>

lemma timed_cfg_fields:
  "deltat (timed_cfg d T) = d"
  "final_time (timed_cfg d T) = T"
  "nu (timed_cfg d T) = 1"
  "rho (timed_cfg d T) = 1"
  "n_u (timed_cfg d T) = 2"
  "n_p (timed_cfg d T) = 1"
  "dofs_per_cell (timed_cfg d T) = 3"
  "n_q (timed_cfg d T) = 1"
  "n_q_face (timed_cfg d T) = 1"
  "cells (timed_cfg d T) = [example_cell]"
  "boundary_dofs (timed_cfg d T) = example_boundary_dofs"
  "getMeanVelocity (timed_cfg d T) = (\<lambda>t. 1)"
  "u_0 (timed_cfg d T) = (\<lambda>i. 1)"
  "krylov (timed_cfg d T) = (\<lambda>A x b P k. ((\<lambda>i. 1), 0))"
  "mpi_size (timed_cfg d T) = 2"
  "point_value (timed_cfg d T) = example_point_value"
  by (simp_all add: timed_cfg_def example_cfg_def)

lemma solve_time_step_timed:
  "solve_time_step (timed_cfg d T) st =
     Inr (st\<lparr>previous_solution := solution st, solution_owned := (\<lambda>i. 1), solution := (\<lambda>i. 1),
             pcout := pcout st @ [ResultGMRESIterations 0]\<rparr>)"
proof -
  have g: "gmres_iterations maxiter tol (\<lambda>k. 0) 0 = (0, True)"
    by (rule gmres_iterations_start) (simp add: tol_def)
  have "solver_solve (timed_cfg d T) maxiter tol A x b P = Inr ((\<lambda>i. 1), 0)" for A x b P
    unfolding solver_solve_def Let_def timed_cfg_fields(14) snd_conv fst_conv g
    by simp
  then show ?thesis
    by (simp add: solve_time_step_def initialize_preconditioner_def
        preconditioner_type_def Let_def)
qed


lemma pres_point_timed:
  "pres_point (timed_cfg d T) st p 0 = Inr 0"
  "pres_point (timed_cfg d T) st p (Suc 0) = Inr (if p 0 < 0.5 then - 1 else - 3)"
  by (simp_all add: pres_point_def timed_cfg_fields(16) example_point_value_def dim_def)

lemma global_pres_point_timed: "global_pres_point (timed_cfg d T) st p = Inr 0"
proof -
  have "[0..<mpi_size (timed_cfg d T)] = [0, Suc 0]"
    by (simp add: timed_cfg_fields(15) upt_rec numeral_2_eq_2)
  then show ?thesis
    by (simp add: global_pres_point_def pres_point_timed mpi_reduce_max_def)
qed

lemma compute_pressure_difference_timed:
  "compute_pressure_difference (timed_cfg d T) st =
     Inr (st\<lparr>pcout := pcout st @ [PressureDifference 0]\<rparr>)"
  by (simp add: compute_pressure_difference_def global_pres_point_timed)


lemma accumulate_numerals:
  "accumulate 1 f = f 0"
  "accumulate 3 f = f 0 + f 1 + f 2"
  by (simp_all add: numeral_3_eq_3 numeral_2_eq_2)

lemma example_cell_fields:
  "is_locally_owned example_cell" "at_boundary example_cell" "faces example_cell = [example_face]"
  "dof_indices example_cell = (\<lambda>i. i)"
  by (simp_all add: example_cell_def)

lemma example_face_fields:
  "face_at_boundary example_face" "boundary_id example_face = 3"
  "normal_vector example_face = (\<lambda>q d. if d = 1 then 1 else 0)"
  "face_JxW example_face = (\<lambda>q. 1)"
  "face_velocity_gradient example_face = (\<lambda>i q d e. if i = 1 \<and> d = 0 \<and> e = 1 then 1 else 0)"
  "face_pressure_value example_face = (\<lambda>i q. if i = 2 then 1 else 0)"
  by (simp_all add: example_face_def)

lemma traction_at_timed:
  "traction_at (timed_cfg d T) example_cell example_face sol 0 = Inr (0, sol 2)"
proof -
  have p: "face_pressure_values (timed_cfg d T) example_cell example_face sol 0 = sol 2"
    by (simp add: face_pressure_values_def timed_cfg_fields(7) example_cell_fields(4)
        example_face_fields(6) accumulate_numerals)
  have g: "face_velocity_gradients (timed_cfg d T) example_cell example_face sol 0
             = (\<lambda>a e. if a = 0 \<and> e = 1 then sol 1 else 0)"
    by (rule ext, rule ext)
       (simp add: face_velocity_gradients_def timed_cfg_fields(7) example_cell_fields(4)
        example_face_fields(5) accumulate_numerals)
  have n: "(\<lambda>a. - normal_vector example_face 0 a) = (\<lambda>a. if a = 1 then - 1 else 0)"
    by (rule ext) (simp add: example_face_fields(3))
  have t: "tangent_of (\<lambda>a. if a = 1 then - 1 else (0::real)) = (\<lambda>a. if a = 0 then - 1 else 0)"
    by (rule ext) (simp add: tangent_of_def)
  have ns: "norm_square (\<lambda>a. if a = 0 then - 1 else (0::real)) = 1"
    by (simp add: norm_square_def scalar_product_def)
  have s: "scalar_product
             (tensor1_times_tensor2 (\<lambda>a. r * (if a = 1 then - 1 else 0))
                (\<lambda>a e. if a = 0 \<and> e = 1 then sol 1 else 0))
             (\<lambda>a. (if a = 0 then - 1 else 0) / 1) = 0" for r :: real
    by (simp add: scalar_product_def tensor1_times_tensor2_def)
  show ?thesis
    unfolding traction_at_def Let_def n t ns p g s
    by (simp add: example_face_fields(4))
qed

lemma forces_cells_loop_timed:
  "forces_cells_loop (timed_cfg d T) sol [example_cell] (0, 0) = Inr (0, sol 2)"
proof -
  have q: "face_quadrature_loop (timed_cfg d T) example_cell example_face sol (Suc 0) (0, 0)
             = Inr (0, sol 2)"
    by (simp add: traction_at_timed)
  have f: "faces_loop (timed_cfg d T) example_cell sol [example_face] (0, 0) = Inr (0, sol 2)"
    using q by (simp add: example_face_fields(1,2) timed_cfg_fields(9))
  show ?thesis
    using f by (simp add: example_cell_fields(1,2,3))
qed

lemma compute_forces_timed:
  "compute_forces (timed_cfg d T) t st =
     Inr ((0, 2000 * solution st 2 / 41),
          st\<lparr>pcout := pcout st
            @ [DragLift 0 (solution st 2), Coeff 0 (2000 * solution st 2 / 41)]\<rparr>)"
  unfolding compute_forces_def timed_cfg_fields(10) forces_cells_loop_timed
  by (simp add: Let_def timed_cfg_fields(4,12))


lemma solve_step_timed: "\<exists>rs'. solve_step (timed_cfg d T) rs = Inr rs'"
proof -
  let ?cfg = "timed_cfg d T"
  let ?t = "time rs + deltat ?cfg"
  obtain st2 where s2: "solve_time_step ?cfg (assembly_of_step ?cfg rs) = Inr st2"
    using solve_time_step_timed by blast
  have "\<exists>st3. (if ?t = final_time ?cfg - deltat ?cfg
      then compute_pressure_difference ?cfg st2 else Inr st2) = Inr st3"
    by (simp add: compute_pressure_difference_timed)
  then obtain st3 where s3: "(if ?t = final_time ?cfg - deltat ?cfg
      then compute_pressure_difference ?cfg st2 else Inr st2) = Inr st3"
    by blast
  have "\<exists>r4. update_coefficients ?cfg ?t st3 (c_D_max rs) (c_L_min rs) = Inr r4"
    by (cases "?t > 0.1") (simp_all add: update_coefficients_def compute_forces_timed)
  then obtain r4 where s4: "update_coefficients ?cfg ?t st3 (c_D_max rs) (c_L_min rs) = Inr r4"
    by blast
  obtain st4 cd cl where r4: "r4 = (st4, cd, cl)" by (cases r4) auto
  have "solve_step ?cfg rs =
          Inr \<lparr>state = (if (time_step rs + 1) mod 20 = 0
                        then output_step (time_step rs + 1) st4 else st4),
               time = ?t, time_step = time_step rs + 1, c_D_max = cd, c_L_min = cl\<rparr>"
    apply (simp only: solve_step_unfold s2 sum.case)
    apply (simp only: s3 sum.case)
    apply (simp only: s4 r4 sum.case prod.case)
    done
  then show ?thesis by blast
qed

lemma run_steps_timed: "\<exists>rs'. run_steps k (timed_cfg d T) rs = Inr rs'"
proof (induction k)
  case 0
  show ?case by simp
next
  case (Suc k)
  then obtain r where "run_steps k (timed_cfg d T) rs = Inr r" by blast
  with solve_step_timed [of d T r] show ?case by auto
qed

section \<open>The scheme transition and the mass block\<close>

lemma example_cfg_timed: "example_cfg = timed_cfg (1 / 2) 1"
  by (simp add: timed_cfg_def example_cfg_def)

lemma run_steps_example:
  "run_steps k example_cfg (initial_run_state example_cfg setup_state) = Inr (example_after k)"
proof -
  obtain r where "run_steps k example_cfg (initial_run_state example_cfg setup_state) = Inr r"
    using run_steps_timed [of k "1 / 2" 1] by (auto simp: example_cfg_timed)
  then show ?thesis by (simp add: example_after_def)
qed

lemma run_log:
  assumes "0 < deltat cfg" and "run_steps k cfg (initial_run_state cfg setup_state) = Inr rs"
  shows "ReinitializeMassMatrixForBDF2 \<notin> set (pcout (state rs))"
proof -
  let ?P = "\<lambda>r. 0 \<le> time r \<and> ReinitializeMassMatrixForBDF2 \<notin> set (pcout (state r))"
  have "?P rs"
  proof (rule run_steps_invariant [OF assms(2)])
    show "?P (initial_run_state cfg setup_state)"
      by (simp add: initial_run_state_def output_step_def setup_state_def)
  next
    fix r r'
    assume inv: "?P r" and step: "solve_step cfg r = Inr r'"
    from inv assms(1) have nb: "time r + deltat cfg \<noteq> - 1" by simp
    from solve_step_log [OF step] obtain k pd fr out where
      l: "pcout (state r') = pcout (assembly_of_step cfg r) @ [ResultGMRESIterations k] @ pd @ fr @ out"
      and pd: "pd = [] \<or> (\<exists>d. pd = [PressureDifference d])"
      and fr: "fr = [] \<or> (\<exists>drag lift c_d c_l. fr = [DragLift drag lift, Coeff c_d c_l])"
      and out: "out = [] \<or> (\<exists>n. out = [OutputWritten n])"
      by blast
    have "ReinitializeMassMatrixForBDF2 \<notin> set (pcout (assembly_of_step cfg r))"
      using inv nb by (simp add: pcout_assembly_of_step)
    with l pd fr out have "ReinitializeMassMatrixForBDF2 \<notin> set (pcout (state r'))"
      by auto
    moreover from solve_step_Inr [OF step] inv assms(1) have "0 \<le> time r'" by simp
    ultimately show "?P r'" by simp
  qed
  then show ?thesis by simp
qed

lemma mass_assembly_of_step:
  assumes "0 < deltat cfg" and "run_steps k cfg (initial_run_state cfg setup_state) = Inr rs"
  shows "mass_matrix (assembly_of_step cfg rs) =
           assemble_cells_matrix (dofs_per_cell cfg) (cell_mass_matrix cfg) (cells cfg) zero_matrix"
proof -
  from run_steps_time [OF assms(2)] have t: "time rs = real k * deltat cfg"
    by (simp add: initial_run_state_def)
  show ?thesis
  proof (cases "k = 0")
    case True
    with t show ?thesis by (simp add: assembly_of_step_def Let_def assemble_fields)
  next
    case False
    with run_mass [OF assms] have m: "mass_matrix (state rs) =
        assemble_cells_matrix (dofs_per_cell cfg) (cell_mass_matrix cfg) (cells cfg) zero_matrix"
      by simp
    from False t assms(1) have "0 < time rs" by simp
    with assms(1) have "time rs + deltat cfg \<noteq> deltat cfg" "time rs + deltat cfg \<noteq> - 1"
      by simp_all
    with m show ?thesis
      by (simp add: assembly_of_step_def Let_def assemble_time_step_fields)
  qed
qed

lemma accumulate_divide: "accumulate n (\<lambda>q. f q / a) = accumulate n f / a"
  by (induction n) (simp_all add: add_divide_distrib)

lemma bdf2_increment_is_half:
  "cell_mass_matrix_time_step cfg (- 1) c i j = cell_mass_matrix cfg c i j / 2"
proof -
  have "cell_mass_matrix_time_step cfg (- 1) c i j
          = accumulate (n_q cfg) (\<lambda>q. time_derivative_term cfg c i j q / 2)"
    by (simp add: cell_mass_matrix_time_step_def bdf2_mass_term_def time_derivative_term_def
        mult.commute)
  then show ?thesis
    by (simp only: accumulate_divide cell_mass_matrix_def)
qed

text \<open>
  Claim C1, as the code has it. With a positive step size, after \<open>k\<close> passes through
  the loop the elapsed time is \<open>k\<close> step sizes; the next assembly is the first-order
  routine exactly when \<open>k = 0\<close>, so that routine runs once, at the step whose elapsed
  time equals one step size, and every later step takes the other routine. The time
  handed to it is never the \<open>-1\<close> that opens the rebuild of the mass block: after the
  assembly of every step the mass block is the one of the first step, with the weight
  \<open>1/\<Delta>t\<close>, and the rebuild is never logged. Only a call with the time \<open>-1\<close>
  changes the mass block, by adding increments of half the first-step weight to the
  block it finds.
\<close>

theorem mass_block_kept_at_first_order_weight:
  assumes "0 < deltat cfg"
    and "run_steps k cfg (initial_run_state cfg setup_state) = Inr rs"
  shows "time rs = real k * deltat cfg \<and> time_step rs = k
     \<and> (time rs + deltat cfg = deltat cfg) = (k = 0)
     \<and> assembly_of_step cfg rs =
         (if k = 0
          then assemble cfg (time rs + deltat cfg)
                 ((state rs)\<lparr>pcout := pcout (state rs)
                     @ [StepHeader (time_step rs + 1) (time rs + deltat cfg)]\<rparr>)
          else assemble_time_step cfg (time rs + deltat cfg)
                 ((state rs)\<lparr>pcout := pcout (state rs)
                     @ [StepHeader (time_step rs + 1) (time rs + deltat cfg)]\<rparr>))
     \<and> time rs + deltat cfg \<noteq> - 1
     \<and> mass_matrix (assembly_of_step cfg rs) =
         assemble_cells_matrix (dofs_per_cell cfg) (cell_mass_matrix cfg) (cells cfg) zero_matrix
     \<and> ReinitializeMassMatrixForBDF2 \<notin> set (pcout (state rs))
     \<and> (t \<noteq> - 1 \<longrightarrow> mass_matrix (assemble_time_step cfg t st) = mass_matrix st)
     \<and> mass_matrix (assemble_time_step cfg (- 1) st) =
         assemble_cells_matrix (dofs_per_cell cfg) (\<lambda>c i j. cell_mass_matrix cfg c i j / 2)
           (cells cfg) (mass_matrix st)"
proof -
  from run_steps_time [OF assms(2)] have t: "time rs = real k * deltat cfg" "time_step rs = k"
    by (simp_all add: initial_run_state_def)
  from t assms(1) have a: "(time rs + deltat cfg = deltat cfg) = (k = 0)" by simp
  from t assms(1) have "0 \<le> time rs" by simp
  with assms(1) have b: "time rs + deltat cfg \<noteq> - 1" by simp
  have h: "cell_mass_matrix_time_step cfg (- 1) = (\<lambda>c i j. cell_mass_matrix cfg c i j / 2)"
    by (rule ext, rule ext, rule ext) (rule bdf2_increment_is_half)
  have e: "mass_matrix (assemble_time_step cfg (- 1) st) =
         assemble_cells_matrix (dofs_per_cell cfg) (\<lambda>c i j. cell_mass_matrix cfg c i j / 2)
           (cells cfg) (mass_matrix st)"
    by (simp add: assemble_time_step_fields h)
  have r: "assembly_of_step cfg rs =
         (if k = 0
          then assemble cfg (time rs + deltat cfg)
                 ((state rs)\<lparr>pcout := pcout (state rs)
                     @ [StepHeader (time_step rs + 1) (time rs + deltat cfg)]\<rparr>)
          else assemble_time_step cfg (time rs + deltat cfg)
                 ((state rs)\<lparr>pcout := pcout (state rs)
                     @ [StepHeader (time_step rs + 1) (time rs + deltat cfg)]\<rparr>))"
    unfolding assembly_of_step_def Let_def a ..
  have m: "t \<noteq> - 1 \<longrightarrow> mass_matrix (assemble_time_step cfg t st) = mass_matrix st"
    by (simp add: assemble_time_step_fields)
  from t a r b mass_assembly_of_step [OF assms] run_log [OF assms] m e
  show ?thesis by blast
qed

lemma example_cfg_fields:
  "deltat example_cfg = 1 / 2"
  "final_time example_cfg = 1"
  "nu example_cfg = 1"
  "rho example_cfg = 1"
  "n_u example_cfg = 2"
  "n_p example_cfg = 1"
  "dofs_per_cell example_cfg = 3"
  "n_q example_cfg = 1"
  "n_q_face example_cfg = 1"
  "cells example_cfg = [example_cell]"
  "boundary_dofs example_cfg = example_boundary_dofs"
  by (simp_all add: example_cfg_def)

lemma example_first_order_mass:
  "assemble_cells_matrix (dofs_per_cell example_cfg) (cell_mass_matrix example_cfg)
     (cells example_cfg) zero_matrix 0 0 = 2"
proof -
  have c: "cell_mass_matrix example_cfg example_cell 0 0 = 2"
    by (simp add: cell_mass_matrix_def time_derivative_term_def scalar_product_def
        example_cfg_def example_cell_def)
  have "add_local_matrix 3 (\<lambda>i. i) (cell_mass_matrix example_cfg example_cell) zero_matrix 0 0 = 2"
    by (simp add: add_local_matrix_def accumulate_numerals c zero_matrix_def)
  then show ?thesis
    by (simp add: example_cfg_fields(7,10) example_cell_fields)
qed

lemma run_mass_example:
  "0 < k \<Longrightarrow> mass_matrix (state (example_after k)) 0 0 = 2"
  using run_mass [of example_cfg k setup_state "example_after k"] run_steps_example [of k]
    example_first_order_mass
  by (simp add: example_cfg_fields(1))

text \<open>
  Claim C1 as stated fails on the small instance: two steps run, the mass entry
  \<open>(0, 0)\<close> is \<open>2\<close>, the cell integral over the step size \<open>1/2\<close>, after the first
  step and after the second, and no rebuild is logged; the weight \<open>0.5/\<Delta>t\<close>
  would give \<open>1\<close>.
\<close>

theorem mass_block_not_rebuilt_counterexample:
  "run_steps 2 example_cfg (initial_run_state example_cfg setup_state) = Inr (example_after 2)
   \<and> time_step (example_after 2) = 2
   \<and> mass_matrix (state (example_after 1)) 0 0 = 2
   \<and> mass_matrix (state (example_after 2)) 0 0 = 2
   \<and> cell_mass_matrix example_cfg example_cell 0 0 = 2
   \<and> ReinitializeMassMatrixForBDF2 \<notin> set (pcout (state (example_after 2)))"
proof -
  have "time_step (example_after 2) = 2"
    using run_steps_time [OF run_steps_example [of 2]] by (simp add: initial_run_state_def)
  moreover have "ReinitializeMassMatrixForBDF2 \<notin> set (pcout (state (example_after 2)))"
    by (rule run_log [OF _ run_steps_example]) (simp add: example_cfg_fields(1))
  moreover have "cell_mass_matrix example_cfg example_cell 0 0 = 2"
    by (simp add: cell_mass_matrix_def time_derivative_term_def scalar_product_def
        example_cfg_def example_cell_def)
  ultimately show ?thesis
    by (simp add: run_steps_example run_mass_example)
qed

theorem mass_block_kept_witness:
  "0 < deltat example_cfg
   \<and> run_steps 2 example_cfg (initial_run_state example_cfg setup_state) = Inr (example_after 2)
   \<and> time (example_after 2) = 1 \<and> time_step (example_after 2) = 2
   \<and> time (example_after 2) + deltat example_cfg \<noteq> deltat example_cfg
   \<and> time (example_after 2) + deltat example_cfg \<noteq> - 1
   \<and> mass_matrix (assembly_of_step example_cfg (example_after 2)) 0 0 = 2
   \<and> ReinitializeMassMatrixForBDF2 \<notin> set (pcout (state (example_after 2)))
   \<and> mass_matrix (assemble_time_step example_cfg 1 example_state) = mass_matrix example_state"
proof -
  have d: "0 < deltat example_cfg" by (simp add: example_cfg_fields(1))
  note th = mass_block_kept_at_first_order_weight [OF d run_steps_example [of 2],
      of 1 example_state]
  from th have t: "time (example_after 2) = real 2 * deltat example_cfg"
    and n: "time_step (example_after 2) = 2"
    and b: "time (example_after 2) + deltat example_cfg \<noteq> - 1"
    and l: "ReinitializeMassMatrixForBDF2 \<notin> set (pcout (state (example_after 2)))"
    by blast+
  from th have m: "mass_matrix (assembly_of_step example_cfg (example_after 2)) =
      assemble_cells_matrix (dofs_per_cell example_cfg) (cell_mass_matrix example_cfg)
        (cells example_cfg) zero_matrix"
    by blast
  from th have "((1::real) \<noteq> - 1 \<longrightarrow>
      mass_matrix (assemble_time_step example_cfg 1 example_state) = mass_matrix example_state)"
    by blast
  then have g: "mass_matrix (assemble_time_step example_cfg 1 example_state)
      = mass_matrix example_state"
    by simp
  from t have t1: "time (example_after 2) = 1" by (simp add: example_cfg_fields(1))
  then have a: "time (example_after 2) + deltat example_cfg \<noteq> deltat example_cfg" by simp
  from m have m2: "mass_matrix (assembly_of_step example_cfg (example_after 2)) 0 0 = 2"
    by (simp only: example_first_order_mass)
  from d run_steps_example [of 2] t1 n a b m2 l g show ?thesis by blast
qed

section \<open>The right-hand side of the later steps\<close>

lemma add_local_vector_3:
  "add_local_vector 3 (\<lambda>i. i) local zero_vector I =
     (if I = 0 then local 0 else if I = 1 then local 1 else if I = 2 then local 2 else 0)"
  by (simp add: add_local_vector_def accumulate_numerals zero_vector_def)

lemma add_local_matrix_3:
  "I < 3 \<Longrightarrow> J < 3 \<Longrightarrow> add_local_matrix 3 (\<lambda>i. i) local zero_matrix I J = local I J"
proof -
  assume "I < 3" "J < 3"
  then have "I = 0 \<or> I = 1 \<or> I = 2" "J = 0 \<or> J = 1 \<or> J = 2" by auto
  then show ?thesis
    by (auto simp: add_local_matrix_def accumulate_numerals zero_matrix_def)
qed

lemma get_function_values_example:
  "get_function_values 3 example_cell example_solution 0 = (\<lambda>d. if d = 0 then 2 else 0)"
  by (rule ext)
     (simp add: get_function_values_def accumulate_numerals example_cell_def example_solution_def)

lemma cell_rhs_time_step_example:
  "cell_rhs_time_step example_cfg example_cell example_solution prev 1 = 4"
  by (simp add: cell_rhs_time_step_def rhs_term_def example_cfg_fields accumulate_numerals
      get_function_values_example scalar_product_def)
     (simp add: example_cell_def)

text \<open>
  Claim C2. The right-hand side of a later step should combine the current and the
  previous field with the weights of the second-order formula. On the small instance
  with step size \<open>1/2\<close>, the entry of the unconstrained DoF 1 is \<open>4\<close>, the current
  field over the step size, whether the previous field is 5 or 0 at every DoF.
\<close>

theorem rhs_time_step_ignores_previous_solution:
  "system_rhs (assemble_time_step example_cfg 1 example_state) 1 = 4
   \<and> system_rhs (assemble_time_step example_cfg 1
        (example_state\<lparr>previous_solution := zero_vector\<rparr>)) 1 = 4
   \<and> previous_solution example_state 1 = 5"
proof -
  have s: "solution example_state = example_solution"
    "solution (example_state\<lparr>previous_solution := zero_vector\<rparr>) = example_solution"
    "previous_solution example_state 1 = 5"
    by (simp_all add: example_state_def setup_state_def example_previous_def)
  have "system_rhs (assemble_time_step example_cfg 1 st) 1 = 4"
    if "solution st = example_solution" for st
    using that
    by (simp add: system_rhs_assemble_time_step boundary_values_example
        example_cfg_fields(7,10) example_cell_fields add_local_vector_3
        cell_rhs_time_step_example [unfolded One_nat_def])
  with s show ?thesis by simp
qed

section \<open>The system matrix as the sum of its blocks\<close>

lemma sum_of_blocks_step:
  assumes "run_steps k cfg (initial_run_state cfg setup_state) = Inr rs"
    and "solve_step cfg rs = Inr rs'"
  shows "sum_of_blocks cfg (state rs')"
  using sum_of_blocks_assembly_of_step [OF run_sum_of_blocks [OF assms(1)]]
    solve_step_Inr [OF assms(2)]
  by (blast intro: sum_of_blocks_same_operators)

text \<open>
  Claim C3, as the code has it. At every time step, when the assembly is complete and
  again when the step is complete, every row of the system matrix that no Dirichlet
  condition constrains is the sum of the stored mass, stiffness and convection blocks
  and of the pressure coupling; the constrained rows are overwritten by the Dirichlet
  enforcement. On those rows the routine of the later steps, called with an elapsed
  time, subtracts the stored convection block and adds the one it assembles.
\<close>

theorem system_matrix_is_sum_on_unconstrained_rows:
  assumes "run_steps k cfg (initial_run_state cfg setup_state) = Inr rs"
    and "\<not> constrained cfg I"
  shows "system_matrix (assembly_of_step cfg rs) I J =
           mass_matrix (assembly_of_step cfg rs) I J
           + stiffness_matrix (assembly_of_step cfg rs) I J
           + convection_matrix (assembly_of_step cfg rs) I J + coupling_block cfg I J
     \<and> (solve_step cfg rs = Inr rs' \<longrightarrow>
          system_matrix (state rs') I J =
            mass_matrix (state rs') I J + stiffness_matrix (state rs') I J
            + convection_matrix (state rs') I J + coupling_block cfg I J)
     \<and> (t \<noteq> - 1 \<longrightarrow>
          system_matrix (assemble_time_step cfg t st) I J =
            system_matrix st I J - convection_matrix st I J
            + convection_matrix (assemble_time_step cfg t st) I J)
     \<and> (constrained cfg K \<longrightarrow> K \<noteq> L \<longrightarrow>
          system_matrix (assembly_of_step cfg rs) K L = 0)"
proof -
  have a: "system_matrix (assembly_of_step cfg rs) I J =
           mass_matrix (assembly_of_step cfg rs) I J
           + stiffness_matrix (assembly_of_step cfg rs) I J
           + convection_matrix (assembly_of_step cfg rs) I J + coupling_block cfg I J"
    using sum_of_blocks_assembly_of_step [OF run_sum_of_blocks [OF assms(1)]] assms(2)
    by (simp add: sum_of_blocks_def)
  have b: "system_matrix (state rs') I J =
            mass_matrix (state rs') I J + stiffness_matrix (state rs') I J
            + convection_matrix (state rs') I J + coupling_block cfg I J"
    if "solve_step cfg rs = Inr rs'"
    using sum_of_blocks_step [OF assms(1) that] assms(2) by (simp add: sum_of_blocks_def)
  have c: "system_matrix (assemble_time_step cfg t st) I J =
            system_matrix st I J - convection_matrix st I J
            + convection_matrix (assemble_time_step cfg t st) I J" if "t \<noteq> - 1"
    using that
    by (simp add: system_matrix_assemble_time_step_unconstrained [OF assms(2)]
        assemble_time_step_fields(1))
  have d: "system_matrix (assembly_of_step cfg rs) K L = 0"
    if "constrained cfg K" "K \<noteq> L"
    using that
    by (simp add: assembly_of_step_def Let_def system_matrix_assemble_constrained
        system_matrix_assemble_time_step_constrained)
  from a b c d show ?thesis by simp
qed

lemma constrained_example: "constrained example_cfg 0" "\<not> constrained example_cfg 1"
  by (simp_all add: constrained_def example_cfg_fields(11) example_boundary_dofs_def
      mask_selects_def component_mask_def)

lemma assembly_of_step_initial:
  "assembly_of_step example_cfg (initial_run_state example_cfg setup_state) =
     assemble example_cfg (1 / 2)
       ((state (initial_run_state example_cfg setup_state))
          \<lparr>pcout := pcout (state (initial_run_state example_cfg setup_state))
               @ [StepHeader 1 (1 / 2)]\<rparr>)"
  by (simp add: assembly_of_step_def Let_def example_cfg_fields(1) initial_run_state_def)

lemma solution_initial:
  "solution ((state (initial_run_state example_cfg setup_state))\<lparr>pcout := l\<rparr>) = example_solution"
  by (simp add: initial_run_state_def output_step_def example_cfg_def example_solution_def)

lemma example_cell_matrices:
  "cell_mass_matrix example_cfg example_cell 0 1 = 2"
  "cell_stiffness_matrix example_cfg example_cell 0 1 = 2"
  "cell_matrix example_cfg example_cell 0 1 = 0"
  "cell_convection_matrix example_cfg example_cell example_solution 0 1 = 11 / 2"
proof -
  show "cell_mass_matrix example_cfg example_cell 0 1 = 2"
    by (simp add: cell_mass_matrix_def time_derivative_term_def scalar_product_def
        example_cfg_fields accumulate_numerals)
       (simp add: example_cell_def)
  show "cell_stiffness_matrix example_cfg example_cell 0 1 = 2"
    by (simp add: cell_stiffness_matrix_def viscosity_term_def scalar_product2_def
        scalar_product_def example_cfg_fields accumulate_numerals)
       (simp add: example_cell_def)
  show "cell_matrix example_cfg example_cell 0 1 = 0"
    by (simp add: cell_matrix_def pressure_terms_def example_cfg_fields accumulate_numerals)
       (simp add: example_cell_def)
  show "cell_convection_matrix example_cfg example_cell example_solution 0 1 = 11 / 2"
    by (simp add: cell_convection_matrix_def cell_convection_matrix_time_step_def example_simps
      convective_term_def temam_term_def get_function_values_def get_function_divergences_def
      scalar_product_def tensor2_times_tensor1_def eval_nat_numeral)
qed

text \<open>
  Claim C3 as stated fails on the small instance after the assembly of the first step:
  DoF 0 is constrained, the entry \<open>(0, 1)\<close> of the system matrix is \<open>0\<close>, and the
  blocks sum to \<open>2 + 2 + 11/2 + 0\<close> there.
\<close>

theorem system_matrix_not_sum_counterexample:
  "constrained example_cfg 0
   \<and> system_matrix (assembly_of_step example_cfg (initial_run_state example_cfg setup_state)) 0 1 = 0
   \<and> mass_matrix (assembly_of_step example_cfg (initial_run_state example_cfg setup_state)) 0 1
     + stiffness_matrix (assembly_of_step example_cfg (initial_run_state example_cfg setup_state)) 0 1
     + convection_matrix (assembly_of_step example_cfg (initial_run_state example_cfg setup_state)) 0 1
     + coupling_block example_cfg 0 1 = 19 / 2"
proof -
  have l: "add_local_matrix 3 (\<lambda>i. i) local zero_matrix 0 (Suc 0) = local 0 1" for local
    using add_local_matrix_3 [of 0 1 local] by simp
  have "system_matrix (assembly_of_step example_cfg (initial_run_state example_cfg setup_state)) 0 1 = 0"
    unfolding assembly_of_step_initial
    by (rule system_matrix_assemble_constrained) (simp_all add: constrained_example)
  moreover have "mass_matrix (assembly_of_step example_cfg (initial_run_state example_cfg setup_state)) 0 1 = 2"
    unfolding assembly_of_step_initial
    by (simp add: assemble_fields(1) example_cfg_fields(7,10) example_cell_fields l
        example_cell_matrices [unfolded One_nat_def])
  moreover have "stiffness_matrix (assembly_of_step example_cfg (initial_run_state example_cfg setup_state)) 0 1 = 2"
    unfolding assembly_of_step_initial
    by (simp add: assemble_fields(2) example_cfg_fields(7,10) example_cell_fields l
        example_cell_matrices [unfolded One_nat_def])
  moreover have "convection_matrix (assembly_of_step example_cfg (initial_run_state example_cfg setup_state)) 0 1 = 11 / 2"
    unfolding assembly_of_step_initial assemble_fields(3) solution_initial
    by (simp add: example_cfg_fields(7,10) example_cell_fields l
        example_cell_matrices [unfolded One_nat_def])
  moreover have "coupling_block example_cfg 0 1 = 0"
    by (simp add: coupling_block_def example_cfg_fields(7,10) example_cell_fields l
        example_cell_matrices [unfolded One_nat_def])
  ultimately show ?thesis by (simp add: constrained_example)
qed

theorem system_matrix_is_sum_witness:
  "run_steps 1 example_cfg (initial_run_state example_cfg setup_state) = Inr (example_after 1)
   \<and> \<not> constrained example_cfg 1
   \<and> solve_step example_cfg (example_after 1) = Inr (example_after 2)
   \<and> (1::real) \<noteq> - 1
   \<and> system_matrix (assembly_of_step example_cfg (example_after 1)) 1 0 =
        mass_matrix (assembly_of_step example_cfg (example_after 1)) 1 0
        + stiffness_matrix (assembly_of_step example_cfg (example_after 1)) 1 0
        + convection_matrix (assembly_of_step example_cfg (example_after 1)) 1 0
        + coupling_block example_cfg 1 0
   \<and> system_matrix (state (example_after 2)) 1 0 =
        mass_matrix (state (example_after 2)) 1 0 + stiffness_matrix (state (example_after 2)) 1 0
        + convection_matrix (state (example_after 2)) 1 0 + coupling_block example_cfg 1 0
   \<and> system_matrix (assemble_time_step example_cfg 1 example_state) 1 0 =
        system_matrix example_state 1 0 - convection_matrix example_state 1 0
        + convection_matrix (assemble_time_step example_cfg 1 example_state) 1 0
   \<and> constrained example_cfg 0 \<and> (0::nat) \<noteq> 1
   \<and> system_matrix (assembly_of_step example_cfg (example_after 1)) 0 1 = 0"
proof -
  have s: "solve_step example_cfg (example_after 1) = Inr (example_after 2)"
    using run_steps_example [of 2] run_steps_example [of 1]
    by (simp add: numeral_2_eq_2)
  from system_matrix_is_sum_on_unconstrained_rows [OF run_steps_example [of 1] constrained_example(2),
      where rs' = "example_after 2" and J = 0 and t = 1 and st = example_state
        and K = 0 and L = 1] s
  show ?thesis
    by (simp add: run_steps_example constrained_example [unfolded One_nat_def])
qed

section \<open>Outcome of the linear solve\<close>


lemma solver_solve_Inl:
  assumes "solver_solve cfg cap eps A x b P = Inl e"
  shows "e = NoConvergence cap (snd (krylov cfg A x b P cap)) \<and> eps \<le> snd (krylov cfg A x b P cap)"
  using solver_solve_cases [of cap cfg A x b P eps] assms by auto








section \<open>The pressure-pressure block\<close>

lemma pressure_blocks_zero_assembly_of_step:
  assumes cw: "component_wise cfg" and inv: "pressure_blocks_zero cfg (state r)"
  shows "pressure_blocks_zero cfg (assembly_of_step cfg r)"
proof (cases "time r + deltat cfg = deltat cfg")
  case True
  then show ?thesis
    by (simp add: assembly_of_step_def Let_def pressure_blocks_zero_assemble [OF cw])
next
  case False
  have "pressure_blocks_zero cfg (state r\<lparr>pcout := l\<rparr>)" for l
    using inv by (simp add: pressure_blocks_zero_def)
  with False show ?thesis
    by (simp add: assembly_of_step_def Let_def
        pressure_blocks_zero_assemble_time_step [OF cw])
qed

text \<open>
  Claim C8. With the component-wise numbering, after every pass through the time loop
  and after every assembly, the entries of the system matrix that couple a pressure DoF
  to a pressure DoF are zero: every cell term of such a pair of shape functions is
  zero, the Dirichlet map of any time leaves the pressure DoFs out, and the coupling
  table marks the pressure-pressure pair as not coupled.
\<close>

theorem pressure_pressure_block_zero:
  assumes "component_wise cfg"
    and "run_steps k cfg (initial_run_state cfg setup_state) = Inr rs"
    and "n_u cfg \<le> I" and "n_u cfg \<le> J"
  shows "system_matrix (state rs) I J = 0
     \<and> system_matrix (assembly_of_step cfg rs) I J = 0
     \<and> boundary_values cfg t I = None
     \<and> coupling dim dim = DoFTools_none
     \<and> (c \<in> set (cells cfg) \<longrightarrow> i < dofs_per_cell cfg \<longrightarrow> j < dofs_per_cell cfg \<longrightarrow>
          dof_indices c i = I \<longrightarrow> dof_indices c j = J \<longrightarrow>
            cell_matrix cfg c i j = 0 \<and> cell_mass_matrix cfg c i j = 0
            \<and> cell_stiffness_matrix cfg c i j = 0
            \<and> cell_convection_matrix cfg c sol i j = 0
            \<and> cell_convection_matrix_time_step cfg c sol prev i j = 0
            \<and> cell_mass_matrix_time_step cfg t c i j = 0)"
proof -
  have inv: "pressure_blocks_zero cfg (state rs)"
    by (rule pressure_blocks_zero_run [OF assms(1,2)])
  then have a: "system_matrix (state rs) I J = 0"
    using assms(3,4) by (simp add: pressure_blocks_zero_def pressure_block_zero_def)
  have b: "system_matrix (assembly_of_step cfg rs) I J = 0"
    using pressure_blocks_zero_assembly_of_step [OF assms(1) inv] assms(3,4)
    by (simp add: pressure_blocks_zero_def pressure_block_zero_def)
  have "\<not> constrained cfg I"
    using constrained_is_velocity [OF assms(1), of I] assms(3) by auto
  then have c: "boundary_values cfg t I = None" by (simp add: boundary_values_None)
  have d: "coupling dim dim = DoFTools_none" by (simp add: coupling_def)
  have e: "cell_matrix cfg c i j = 0 \<and> cell_mass_matrix cfg c i j = 0
            \<and> cell_stiffness_matrix cfg c i j = 0
            \<and> cell_convection_matrix cfg c sol i j = 0
            \<and> cell_convection_matrix_time_step cfg c sol prev i j = 0
            \<and> cell_mass_matrix_time_step cfg t c i j = 0"
    if "c \<in> set (cells cfg)" "i < dofs_per_cell cfg" "j < dofs_per_cell cfg"
      "dof_indices c i = I" "dof_indices c j = J"
  proof -
    from that assms(3,4) have "pressure_shape_function cfg c i" "pressure_shape_function cfg c j"
      using component_wise_cells [OF assms(1)] by simp_all
    then show ?thesis by (simp add: local_pressure_pressure_zero)
  qed
  from a b c d e show ?thesis by blast
qed

lemma component_wise_example: "component_wise example_cfg"
proof -
  have "pressure_shape_function example_cfg example_cell i" if "i < 3" "2 \<le> i" for i
  proof -
    from that have "i = 2" by simp
    then show ?thesis
      by (simp add: pressure_shape_function_def example_cfg_fields(8) example_cell_def)
  qed
  then show ?thesis
    by (auto simp: component_wise_def example_cfg_fields example_cell_fields
        example_boundary_dofs_def dim_def)
qed

theorem pressure_pressure_block_zero_witness:
  "component_wise example_cfg
   \<and> run_steps 2 example_cfg (initial_run_state example_cfg setup_state) = Inr (example_after 2)
   \<and> n_u example_cfg \<le> 2
   \<and> example_cell \<in> set (cells example_cfg) \<and> 2 < dofs_per_cell example_cfg
   \<and> dof_indices example_cell 2 = 2
   \<and> system_matrix (state (example_after 2)) 2 2 = 0
   \<and> system_matrix (assembly_of_step example_cfg (example_after 2)) 2 2 = 0
   \<and> boundary_values example_cfg 1 2 = None
   \<and> cell_matrix example_cfg example_cell 2 2 = 0
   \<and> cell_mass_matrix example_cfg example_cell 2 2 = 0
   \<and> cell_convection_matrix example_cfg example_cell example_solution 2 2 = 0"
proof -
  have n: "n_u example_cfg \<le> 2" by (simp add: example_cfg_fields(5))
  have h: "example_cell \<in> set (cells example_cfg)" "2 < dofs_per_cell example_cfg"
    "dof_indices example_cell 2 = 2"
    by (simp_all add: example_cfg_fields(7,10) example_cell_fields(4))
  from pressure_pressure_block_zero [OF component_wise_example run_steps_example [of 2] n n,
      where c = example_cell and i = 2 and j = 2 and t = 1 and sol = example_solution] h
  show ?thesis
    by (simp add: component_wise_example run_steps_example n)
qed


section \<open>Division by the squared norm of the tangent\<close>

lemma norm_square_tangent_of: "norm_square (tangent_of n) = (n 0)\<^sup>2 + (n 1)\<^sup>2"
  by (simp add: norm_square_def tangent_of_def scalar_product_def power2_eq_square)

lemma norm_square_tangent_zero:
  "(norm_square (tangent_of (\<lambda>d. - normal_vector f q d)) = 0)
     = (normal_vector f q 0 = 0 \<and> normal_vector f q 1 = 0)"
  by (simp add: norm_square_tangent_of sum_power2_eq_zero_iff)

lemma traction_at_Inl:
  "(traction_at cfg c f sol q = Inl e)
     = (e = DivisionByZero \<and> normal_vector f q 0 = 0 \<and> normal_vector f q 1 = 0)"
proof (cases "norm_square (tangent_of (\<lambda>d. - normal_vector f q d)) = 0")
  case True
  then have "traction_at cfg c f sol q = Inl DivisionByZero"
    by (simp add: traction_at_def Let_def)
  with True show ?thesis by (auto simp: norm_square_tangent_zero)
next
  case False
  then have "\<exists>r. traction_at cfg c f sol q = Inr r"
    by (simp add: traction_at_def Let_def)
  with False show ?thesis by (auto simp: norm_square_tangent_zero)
qed

lemma face_quadrature_loop_result:
  "(normals_ok f n \<longrightarrow> (\<exists>r. face_quadrature_loop cfg c f sol n acc = Inr r))
   \<and> (\<not> normals_ok f n \<longrightarrow> face_quadrature_loop cfg c f sol n acc = Inl DivisionByZero)"
proof (induction n)
  case 0
  show ?case by (simp add: normals_ok_def)
next
  case (Suc n)
  have s: "normals_ok f (Suc n)
             = (normals_ok f n \<and> \<not> (normal_vector f n 0 = 0 \<and> normal_vector f n 1 = 0))"
    by (auto simp: normals_ok_def less_Suc_eq)
  show ?case
  proof (cases "normals_ok f n")
    case False
    with Suc s show ?thesis by simp
  next
    case True
    with Suc obtain r where r: "face_quadrature_loop cfg c f sol n acc = Inr r" by blast
    obtain d l where dl: "r = (d, l)" by (cases r)
    show ?thesis
    proof (cases "normal_vector f n 0 = 0 \<and> normal_vector f n 1 = 0")
      case True
      then have "traction_at cfg c f sol n = Inl DivisionByZero"
        by (simp add: traction_at_Inl)
      with r dl True s show ?thesis by simp
    next
      case False
      then have "\<not> (\<exists>e. traction_at cfg c f sol n = Inl e)"
        by (simp add: traction_at_Inl)
      then obtain x where "traction_at cfg c f sol n = Inr x"
        by (cases "traction_at cfg c f sol n") auto
      moreover obtain a b where "x = (a, b)" by (cases x)
      ultimately show ?thesis using r dl False s \<open>normals_ok f n\<close> by simp
    qed
  qed
qed

lemma faces_loop_result:
  "(faces_ok cfg fs \<longrightarrow> (\<exists>r. faces_loop cfg c sol fs acc = Inr r))
   \<and> (\<not> faces_ok cfg fs \<longrightarrow> faces_loop cfg c sol fs acc = Inl DivisionByZero)"
proof (induction fs arbitrary: acc)
  case Nil
  show ?case by (simp add: faces_ok_def)
next
  case (Cons f fs)
  show ?case
  proof (cases "face_at_boundary f \<and> boundary_id f = 3")
    case False
    then have "faces_ok cfg (f # fs) = faces_ok cfg fs" by (auto simp: faces_ok_def)
    with False Cons [of acc] show ?thesis by auto
  next
    case True
    then have s: "faces_ok cfg (f # fs) = (normals_ok f (n_q_face cfg) \<and> faces_ok cfg fs)"
      by (auto simp: faces_ok_def)
    show ?thesis
    proof (cases "normals_ok f (n_q_face cfg)")
      case False
      with face_quadrature_loop_result [of f "n_q_face cfg" cfg c sol acc] True s
      show ?thesis by simp
    next
      case ok: True
      with face_quadrature_loop_result [of f "n_q_face cfg" cfg c sol acc]
      obtain r where "face_quadrature_loop cfg c f sol (n_q_face cfg) acc = Inr r" by blast
      with True s ok Cons [of r] show ?thesis by simp
    qed
  qed
qed

lemma forces_cells_loop_result:
  "(cells_ok cfg cs \<longrightarrow> (\<exists>r. forces_cells_loop cfg sol cs acc = Inr r))
   \<and> (\<not> cells_ok cfg cs \<longrightarrow> forces_cells_loop cfg sol cs acc = Inl DivisionByZero)"
proof (induction cs arbitrary: acc)
  case Nil
  show ?case by (simp add: cells_ok_def)
next
  case (Cons c cs)
  show ?case
  proof (cases "is_locally_owned c \<and> at_boundary c")
    case False
    then have "cells_ok cfg (c # cs) = cells_ok cfg cs" by (auto simp: cells_ok_def)
    with False Cons [of acc] show ?thesis by auto
  next
    case True
    then have s: "cells_ok cfg (c # cs) = (faces_ok cfg (faces c) \<and> cells_ok cfg cs)"
      by (auto simp: cells_ok_def)
    show ?thesis
    proof (cases "faces_ok cfg (faces c)")
      case False
      with faces_loop_result [of cfg "faces c" c sol acc] True s show ?thesis by simp
    next
      case ok: True
      with faces_loop_result [of cfg "faces c" c sol acc]
      obtain r where "faces_loop cfg c sol (faces c) acc = Inr r" by blast
      with True s ok Cons [of r] show ?thesis by simp
    qed
  qed
qed

lemma cells_ok_no_normal_along_z: "cells_ok cfg (cells cfg) = no_normal_along_z cfg"
  by (simp add: cells_ok_def faces_ok_def normals_ok_def no_normal_along_z_def)

text \<open>
  Claim C10. At every quadrature point of a face of region 3 the traction divides the
  tangent \<open>(ny, -nx, 0)\<close> by its squared norm \<open>nx\<^sup>2 + ny\<^sup>2\<close>, which is zero exactly
  when the normal has no x and no y component. The loops of the force computation
  return a value exactly when no quadrature normal of a region 3 face of an owned
  boundary cell is parallel to the z-axis; otherwise they end in a division by zero.
\<close>

theorem traction_total_iff_no_normal_along_z:
  "(\<exists>r. forces_cells_loop cfg sol (cells cfg) acc = Inr r) = no_normal_along_z cfg
   \<and> (\<not> no_normal_along_z cfg \<longrightarrow>
        forces_cells_loop cfg sol (cells cfg) acc = Inl DivisionByZero)
   \<and> norm_square (tangent_of (\<lambda>d. - normal_vector f q d))
        = (normal_vector f q 0)\<^sup>2 + (normal_vector f q 1)\<^sup>2
   \<and> (traction_at cfg c f sol q = Inl DivisionByZero)
        = (normal_vector f q 0 = 0 \<and> normal_vector f q 1 = 0)"
proof -
  have a: "(\<exists>r. forces_cells_loop cfg sol (cells cfg) acc = Inr r) = no_normal_along_z cfg"
    using forces_cells_loop_result [of cfg "cells cfg" sol acc]
    by (auto simp: cells_ok_no_normal_along_z)
  have b: "\<not> no_normal_along_z cfg \<Longrightarrow>
        forces_cells_loop cfg sol (cells cfg) acc = Inl DivisionByZero"
    using forces_cells_loop_result [of cfg "cells cfg" sol acc]
    by (simp add: cells_ok_no_normal_along_z)
  have c: "norm_square (tangent_of (\<lambda>d. - normal_vector f q d))
        = (normal_vector f q 0)\<^sup>2 + (normal_vector f q 1)\<^sup>2"
    by (simp add: norm_square_tangent_of)
  from a b c show ?thesis by (simp add: traction_at_Inl)
qed

theorem traction_total_witness:
  "forces_cells_loop example_cfg example_solution (cells example_cfg) (0, 0) = Inr (0, 1)
   \<and> no_normal_along_z example_cfg
   \<and> \<not> no_normal_along_z z_face_cfg
   \<and> forces_cells_loop z_face_cfg example_solution (cells z_face_cfg) (0, 0)
        = Inl DivisionByZero"
proof -
  have a: "forces_cells_loop example_cfg example_solution (cells example_cfg) (0, 0) = Inr (0, 1)"
    using forces_cells_loop_timed [of "1 / 2" 1 example_solution]
    by (simp add: example_cfg_timed [symmetric] example_cfg_fields(10) example_solution_def)
  have z: "\<not> no_normal_along_z z_face_cfg"
    by (simp add: no_normal_along_z_def z_face_cfg_def example_cfg_def example_cell_def
        example_face_def)
  from traction_total_iff_no_normal_along_z [of example_cfg example_solution "(0, 0)"] a
  have b: "no_normal_along_z example_cfg" by blast
  from traction_total_iff_no_normal_along_z [of z_face_cfg example_solution "(0, 0)"] z
  have "forces_cells_loop z_face_cfg example_solution (cells z_face_cfg) (0, 0)
          = Inl DivisionByZero" by blast
  with a b z show ?thesis by blast
qed


section \<open>The final summary\<close>

text \<open>
  With a positive step size the time loop ends: enough fuel gives the result of the
  run, a final state or the exception that ended it.
\<close>

lemma solve_loop_enough_fuel:
  assumes d: "0 < deltat cfg"
  shows "final_time cfg - 0.5 * deltat cfg - time rs < real n * deltat cfg
           \<Longrightarrow> \<exists>fuel. solve_loop fuel cfg rs \<noteq> None"
proof (induction n arbitrary: rs)
  case 0
  then have "\<not> time rs < final_time cfg - 0.5 * deltat cfg" by simp
  then have "solve_loop 0 cfg rs \<noteq> None" by simp
  then show ?case by blast
next
  case (Suc n)
  show ?case
  proof (cases "time rs < final_time cfg - 0.5 * deltat cfg")
    case False
    then have "solve_loop 0 cfg rs \<noteq> None" by simp
    then show ?thesis by blast
  next
    case True
    show ?thesis
    proof (cases "solve_step cfg rs")
      case (Inl e)
      with True have "solve_loop (Suc 0) cfg rs \<noteq> None" by simp
      then show ?thesis by blast
    next
      case (Inr r)
      from solve_step_Inr [OF Inr] have "time r = time rs + deltat cfg" by simp
      with Suc.prems have "final_time cfg - 0.5 * deltat cfg - time r < real n * deltat cfg"
        by (simp add: algebra_simps)
      from Suc.IH [OF this] obtain fuel where "solve_loop fuel cfg r \<noteq> None" by blast
      with True Inr have "solve_loop (Suc fuel) cfg rs \<noteq> None" by simp
      then show ?thesis by blast
    qed
  qed
qed

lemma solve_terminates:
  assumes "0 < deltat cfg"
  shows "\<exists>fuel. solve fuel cfg st \<noteq> None"
proof -
  let ?rs = "initial_run_state cfg st"
  obtain n where "(final_time cfg - 0.5 * deltat cfg - time ?rs) / deltat cfg < real n"
    using reals_Archimedean2 by blast
  with assms have "final_time cfg - 0.5 * deltat cfg - time ?rs < real n * deltat cfg"
    by (simp add: pos_divide_less_eq)
  from solve_loop_enough_fuel [OF assms this] obtain fuel where
    "solve_loop fuel cfg ?rs \<noteq> None" by blast
  then have "solve fuel cfg st \<noteq> None"
    by (auto simp: solve_def split: option.splits sum.splits)
  then show ?thesis by blast
qed


















end
